theory Spec2Isabelle
  imports Main "HOL-Library.Signed_Division"
begin

section \<open>Shared constants and the external collaborators\<close>

text \<open>
  The constants of \<^verbatim>\<open>disk.h\<close>, \<^verbatim>\<open>filehdr.h\<close>, \<^verbatim>\<open>directory.h\<close> and
  \<^verbatim>\<open>filesys.h\<close> are not part of the sources at hand, so every function takes them
  as a parameter: \<open>SectorSize\<close> is S, \<open>SectorNumPerList\<close> is L, \<open>NumSectors\<close> is
  the number of sectors of the disk, \<open>NumDirEntries\<close> is M and \<open>FileNameMaxLen\<close> is
  NAME_MAX.
\<close>

record config =
  SectorSize :: nat
  SectorNumPerList :: nat
  NumSectors :: nat
  NumDirEntries :: nat
  FileNameMaxLen :: nat

text \<open>The values of the Nachos distribution, used for concrete runs.\<close>

definition nachos :: config where
  "nachos = \<lparr>SectorSize = 128, SectorNumPerList = 32, NumSectors = 1024,
             NumDirEntries = 10, FileNameMaxLen = 9\<rparr>"

text \<open>
  What aborts the program or leaves the behaviour of the C++ code undefined is a value:
  a failed \<^verbatim>\<open>ASSERT\<close>, an access outside an array, a read of memory that was never
  written.
\<close>

datatype error = AssertFailed | BufferOverrun | UninitRead

text \<open>
  Modelled from the spec: the macro \<^verbatim>\<open>divRoundUp\<close> of \<^verbatim>\<open>utility.h\<close>, which is
  missing; the spec gives \<open>ceil(n / s)\<close>.
\<close>

definition divRoundUp :: "int \<Rightarrow> int \<Rightarrow> int" where
  "divRoundUp n s = (n + s - 1) div s"

subsection \<open>Free-sector bitmap\<close>

text \<open>
  Modelled from the spec: the class \<^verbatim>\<open>PersistentBitmap\<close>, which is missing; the spec
  gives test, find-and-set (a sector or -1), clear and count-clear over the sector
  numbers. A bit is \<open>True\<close> when the sector is allocated; find-and-set takes the lowest
  clear bit; test and clear assert that the sector number is in range.
\<close>

type_synonym bitmap = "bool list"

definition NumClear :: "bitmap \<Rightarrow> int" where
  "NumClear fm = int (length (filter Not fm))"

fun first_clear :: "bitmap \<Rightarrow> nat option" where
  "first_clear [] = None"
| "first_clear (b # bs) = (if b then map_option Suc (first_clear bs) else Some 0)"

definition FindAndSet :: "bitmap \<Rightarrow> int \<times> bitmap" where
  "FindAndSet fm = (case first_clear fm of None \<Rightarrow> (- 1, fm) | Some i \<Rightarrow> (int i, fm[i := True]))"

definition Test :: "bitmap \<Rightarrow> int \<Rightarrow> error + bool" where
  "Test fm s = (if 0 \<le> s \<and> s < int (length fm) then Inr (fm ! nat s) else Inl AssertFailed)"

definition Clear :: "bitmap \<Rightarrow> int \<Rightarrow> error + bitmap" where
  "Clear fm s = (if 0 \<le> s \<and> s < int (length fm) then Inr (fm[nat s := False]) else Inl AssertFailed)"

subsection \<open>Disk\<close>

text \<open>
  Modelled from the spec: the class \<^verbatim>\<open>SynchDisk\<close>, which is missing; the spec gives
  sectors addressed by a number in \<open>[0, N_sectors)\<close>, read and written whole. Only index
  sectors are read back here, so a sector is the list of the sector numbers it holds.
\<close>

type_synonym disk = "int \<Rightarrow> int list"

definition ReadSector :: "config \<Rightarrow> disk \<Rightarrow> int \<Rightarrow> error + int list" where
  "ReadSector cfg d s = (if 0 \<le> s \<and> s < int (NumSectors cfg) then Inr (d s) else Inl AssertFailed)"

definition WriteSector :: "config \<Rightarrow> disk \<Rightarrow> int \<Rightarrow> int list \<Rightarrow> error + disk" where
  "WriteSector cfg d s buf = (if 0 \<le> s \<and> s < int (NumSectors cfg) then Inr (d(s := buf)) else Inl AssertFailed)"

text \<open>A disk on which no index sector was written yet.\<close>

definition blank_disk :: disk where
  "blank_disk = (\<lambda>s. [])"

section \<open>File header (filehdr.cc)\<close>

text \<open>
  \<open>dataSectorLists\<close> is a fixed array: the list has the length of the array, and an
  access outside it is an error.
\<close>

record FileHeader =
  numBytes :: int
  numSectors :: int
  numLists :: int
  dataSectorLists :: "int list"

text \<open>
  The constructor fills every field with -1; \<open>maxLists\<close> is the size of the array
  \<open>dataSectorLists\<close>, declared in \<^verbatim>\<open>filehdr.h\<close>.
\<close>

definition FileHeader_init :: "nat \<Rightarrow> FileHeader" where
  "FileHeader_init maxLists =
     \<lparr>numBytes = - 1, numSectors = - 1, numLists = - 1,
      dataSectorLists = replicate maxLists (- 1)\<rparr>"

text \<open>The inner loop of \<^verbatim>\<open>Allocate\<close>: \<open>n\<close> more slots of the buffer, from slot \<open>j\<close>.\<close>

fun alloc_data :: "nat \<Rightarrow> bitmap \<Rightarrow> int list \<Rightarrow> nat \<Rightarrow> error + (bitmap \<times> int list)" where
  "alloc_data 0 fm buf j = Inr (fm, buf)"
| "alloc_data (Suc n) fm buf j =
     (case FindAndSet fm of (s, fm') \<Rightarrow>
        if s < 0 then Inl AssertFailed
        else alloc_data n fm' (buf[j := s]) (Suc j))"

text \<open>
  The outer loop of \<^verbatim>\<open>Allocate\<close>: \<open>n\<close> more lists, from list \<open>i\<close>. The bound of the
  inner loop is computed from the disk constant \<^verbatim>\<open>NumSectors\<close>, as the source has it.
\<close>

fun alloc_lists :: "config \<Rightarrow> nat \<Rightarrow> nat \<Rightarrow> FileHeader \<Rightarrow> bitmap \<Rightarrow> disk
    \<Rightarrow> error + (FileHeader \<times> bitmap \<times> disk)" where
  "alloc_lists cfg 0 i h fm d = Inr (h, fm, d)"
| "alloc_lists cfg (Suc n) i h fm d =
     (if length (dataSectorLists h) \<le> i then Inl BufferOverrun
      else case FindAndSet fm of (s, fm1) \<Rightarrow>
        if s < 0 then Inl AssertFailed
        else
          let nowNumSectors = int i * int (SectorNumPerList cfg);
              lastSectorNum =
                (if nowNumSectors + int (SectorNumPerList cfg) > int (NumSectors cfg)
                 then int (NumSectors cfg)
                 else nowNumSectors + int (SectorNumPerList cfg))
          in case alloc_data (nat (lastSectorNum - nowNumSectors)) fm1
                    (replicate (SectorNumPerList cfg) 0) 0 of
               Inl e \<Rightarrow> Inl e
             | Inr (fm2, buffer) \<Rightarrow>
                 (case WriteSector cfg d s buffer of
                    Inl e \<Rightarrow> Inl e
                  | Inr d' \<Rightarrow>
                      alloc_lists cfg n (Suc i)
                        (h\<lparr>dataSectorLists := (dataSectorLists h)[i := s]\<rparr>) fm2 d'))"

definition Allocate :: "config \<Rightarrow> FileHeader \<Rightarrow> bitmap \<Rightarrow> disk \<Rightarrow> int
    \<Rightarrow> error + (bool \<times> FileHeader \<times> bitmap \<times> disk)" where
  "Allocate cfg h freeMap d fileSize =
     (let ns = divRoundUp fileSize (int (SectorSize cfg));
          nl = divRoundUp ns (int (SectorNumPerList cfg));
          h1 = h\<lparr>numBytes := fileSize, numSectors := ns, numLists := nl\<rparr>
      in if NumClear freeMap < ns then Inr (False, h1, freeMap, d)
         else case alloc_lists cfg (nat nl) 0 h1 freeMap d of
                Inl e \<Rightarrow> Inl e
              | Inr (h2, fm2, d2) \<Rightarrow> Inr (True, h2, fm2, d2))"

text \<open>
  \<^verbatim>\<open>Deallocate\<close> declares its buffer as \<^verbatim>\<open>int buffer = new int[SectorNumPerList]\<close>
  and then indexes it; it is read here as the \<^verbatim>\<open>int *\<close> the other functions declare.
  The buffer is never filled: no sector is read into it. What a fresh buffer holds is
  the parameter \<open>junk\<close>: \<open>junk i j\<close> is slot \<open>j\<close> of the buffer of list \<open>i\<close>. The
  inner loop runs for \<open>n\<close> more slots from slot \<open>j\<close>.
\<close>

fun dealloc_data :: "config \<Rightarrow> (nat \<Rightarrow> int) \<Rightarrow> nat \<Rightarrow> nat \<Rightarrow> bitmap \<Rightarrow> error + bitmap" where
  "dealloc_data cfg buffer 0 j fm = Inr fm"
| "dealloc_data cfg buffer (Suc n) j fm =
     (if SectorNumPerList cfg \<le> j then Inl BufferOverrun
      else case Test fm (buffer j) of
             Inl e \<Rightarrow> Inl e
           | Inr b \<Rightarrow>
               if \<not> b then Inl AssertFailed
               else (case Clear fm (buffer j) of
                       Inl e \<Rightarrow> Inl e
                     | Inr fm' \<Rightarrow> dealloc_data cfg buffer n (Suc j) fm'))"

fun dealloc_lists :: "config \<Rightarrow> (nat \<Rightarrow> nat \<Rightarrow> int) \<Rightarrow> FileHeader \<Rightarrow> nat \<Rightarrow> nat \<Rightarrow> bitmap
    \<Rightarrow> error + bitmap" where
  "dealloc_lists cfg junk h 0 i fm = Inr fm"
| "dealloc_lists cfg junk h (Suc n) i fm =
     (let nowNumSectors = int i * int (SectorNumPerList cfg);
          lastSectorNum =
            (if nowNumSectors + int (SectorNumPerList cfg) > numSectors h
             then numSectors h
             else nowNumSectors + int (SectorNumPerList cfg))
      in case dealloc_data cfg (junk i) (nat lastSectorNum) 0 fm of
           Inl e \<Rightarrow> Inl e
         | Inr fm' \<Rightarrow> dealloc_lists cfg junk h n (Suc i) fm')"

definition Deallocate :: "config \<Rightarrow> (nat \<Rightarrow> nat \<Rightarrow> int) \<Rightarrow> FileHeader \<Rightarrow> bitmap \<Rightarrow> error + bitmap" where
  "Deallocate cfg junk h freeMap = dealloc_lists cfg junk h (nat (numLists h)) 0 freeMap"

definition ByteToSector :: "config \<Rightarrow> FileHeader \<Rightarrow> disk \<Rightarrow> int \<Rightarrow> error + int" where
  "ByteToSector cfg h d offset =
     (let sectorIdx = offset sdiv int (SectorSize cfg);
          listIdx = sectorIdx sdiv int (SectorNumPerList cfg);
          idxInList = sectorIdx smod int (SectorNumPerList cfg)
      in if listIdx < 0 \<or> int (length (dataSectorLists h)) \<le> listIdx then Inl BufferOverrun
         else case ReadSector cfg d (dataSectorLists h ! nat listIdx) of
                Inl e \<Rightarrow> Inl e
              | Inr buf \<Rightarrow>
                  if idxInList < 0 \<or> int (length buf) \<le> idxInList then Inl BufferOverrun
                  else Inr (buf ! nat idxInList))"

definition FileLength :: "FileHeader \<Rightarrow> int" where
  "FileLength h = numBytes h"

section \<open>Directory (directory.cc)\<close>

subsection \<open>C strings\<close>

text \<open>
  A \<^verbatim>\<open>char *\<close> argument is the list of its bytes; what a C function sees of it ends
  at the first NUL. A byte read at the end of the list is the terminator.
\<close>

definition NUL :: char where
  "NUL = CHR 0x00"

definition cstr :: "string \<Rightarrow> string" where
  "cstr s = takeWhile (\<lambda>c. c \<noteq> NUL) s"

definition strlen :: "string \<Rightarrow> nat" where
  "strlen s = length (cstr s)"

definition byte_at :: "string \<Rightarrow> nat \<Rightarrow> char" where
  "byte_at s i = (if i < length s then s ! i else NUL)"

fun strncmp :: "string \<Rightarrow> string \<Rightarrow> nat \<Rightarrow> int" where
  "strncmp a b 0 = 0"
| "strncmp a b (Suc n) =
     (let c1 = byte_at a 0; c2 = byte_at b 0
      in if c1 \<noteq> c2 then int (of_char c1) - int (of_char c2)
         else if c1 = NUL then 0
         else strncmp (tl a) (tl b) n)"

text \<open>
  \<^verbatim>\<open>strncpy(dst, src, n)\<close> writes exactly \<open>n\<close> bytes: the bytes of \<open>src\<close> up to its
  terminator, then NULs; the bytes of \<open>dst\<close> from \<open>n\<close> on stay.
\<close>

definition strncpy :: "string \<Rightarrow> string \<Rightarrow> nat \<Rightarrow> string" where
  "strncpy dst src n = take n (cstr src @ replicate n NUL) @ drop n dst"

subsection \<open>Table and directory files\<close>

text \<open>
  \<open>name\<close> is the array \<^verbatim>\<open>char name[FileNameMaxLen + 1]\<close>, byte by byte.
\<close>

record DirectoryEntry =
  inUse :: bool
  name :: string
  sector :: int
  type :: char

type_synonym table = "DirectoryEntry list"

text \<open>
  The constructor: \<open>sz\<close> entries, zeroed by \<^verbatim>\<open>memset\<close>, none in use. The size of
  the table, \<^verbatim>\<open>tableSize\<close>, is the length of the list.
\<close>

definition Directory_init :: "config \<Rightarrow> nat \<Rightarrow> table" where
  "Directory_init cfg sz =
     replicate sz \<lparr>inUse = False, name = replicate (FileNameMaxLen cfg + 1) NUL,
                     sector = 0, type = NUL\<rparr>"

text \<open>
  Modelled from the spec: the class \<^verbatim>\<open>OpenFile\<close>, which is missing; the spec gives a
  file opened from the sector of its header, read and written at an offset, and a
  directory stored as the M entries at offset 0 of such a file. The files are a function
  from the header sector to the entries the file holds; opening reads the header sector
  from the disk, which asserts that the sector number is in range.
\<close>

type_synonym store = "int \<Rightarrow> DirectoryEntry list"

definition OpenFile :: "config \<Rightarrow> int \<Rightarrow> error + int" where
  "OpenFile cfg s = (if 0 \<le> s \<and> s < int (NumSectors cfg) then Inr s else Inl AssertFailed)"

text \<open>
  \<^verbatim>\<open>FetchFrom\<close> is only ever called on a fresh \<^verbatim>\<open>Directory(NumDirEntries)\<close>: the
  entries the file holds replace the first entries of the zeroed table.
\<close>

definition FetchFrom :: "config \<Rightarrow> store \<Rightarrow> int \<Rightarrow> table" where
  "FetchFrom cfg st file =
     take (NumDirEntries cfg) (st file)
       @ drop (length (st file)) (Directory_init cfg (NumDirEntries cfg))"

definition WriteBack :: "store \<Rightarrow> int \<Rightarrow> table \<Rightarrow> store" where
  "WriteBack st file tbl = st(file := tbl)"

subsection \<open>Lookup\<close>

text \<open>The loop of \<^verbatim>\<open>FindIndex\<close> from index \<open>i\<close> on; \<open>None\<close> is the result -1.\<close>

fun FindIndex_from :: "config \<Rightarrow> DirectoryEntry list \<Rightarrow> string \<Rightarrow> nat \<Rightarrow> nat option" where
  "FindIndex_from cfg [] nm i = None"
| "FindIndex_from cfg (e # es) nm i =
     (if inUse e \<and> strncmp (name e) nm (FileNameMaxLen cfg) = 0 then Some i
      else FindIndex_from cfg es nm (Suc i))"

definition FindIndex :: "config \<Rightarrow> table \<Rightarrow> string \<Rightarrow> nat option" where
  "FindIndex cfg tbl nm = FindIndex_from cfg tbl nm 0"

text \<open>
  \<^verbatim>\<open>Find\<close> steps over the first byte of the path, copies the bytes up to the next
  \<^verbatim>\<open>'/'\<close> into \<^verbatim>\<open>localName\<close> and looks that up. The index \<^verbatim>\<open>localID\<close> into
  \<^verbatim>\<open>localName\<close> is a \<^verbatim>\<open>char\<close>, taken as signed: after 128 bytes it is negative. The
  result -1 is both "not found" and the sector -1 of an entry. \<open>terminated\<close> tells
  whether the buffer of the path ends with a NUL: \<^verbatim>\<open>Add\<close> and \<^verbatim>\<open>Remove\<close> pass
  \<^verbatim>\<open>Path\<close>, which has none once 256 bytes are copied into it.
\<close>

function Find_buf :: "config \<Rightarrow> store \<Rightarrow> table \<Rightarrow> string \<Rightarrow> bool \<Rightarrow> error + int" where
  "Find_buf cfg st tbl nm terminated =
     (case cstr nm of
        [] \<Rightarrow> Inl BufferOverrun
      | c # name1 \<Rightarrow>
          let localName = takeWhile (\<lambda>x. x \<noteq> CHR ''/'') name1;
              name2 = dropWhile (\<lambda>x. x \<noteq> CHR ''/'') name1;
              findNext = (name2 \<noteq> [])
          in if 128 < length localName then Inl BufferOverrun
             else if \<not> findNext \<and> \<not> terminated then Inl BufferOverrun
             else (case FindIndex cfg tbl localName of
                     None \<Rightarrow> Inr (- 1)
                   | Some i \<Rightarrow>
                       if findNext then
                         (case OpenFile cfg (sector (tbl ! i)) of
                            Inl e \<Rightarrow> Inl e
                          | Inr nextDirectory \<Rightarrow>
                              Find_buf cfg st (FetchFrom cfg st nextDirectory) name2 terminated)
                       else Inr (sector (tbl ! i))))"
  by pat_completeness auto
termination
proof (relation "measure (\<lambda>(cfg, st, tbl, nm, terminated). length nm)", goal_cases)
  case 1
  show ?case by simp
next
  case (2 cfg st tbl nm terminated c name1 localName name2 findNext i nextDirectory)
  have "length name2 \<le> length name1"
    using 2 by (simp add: length_dropWhile_le)
  moreover have "length (cstr nm) \<le> length nm"
    by (simp add: cstr_def length_takeWhile_le)
  ultimately show ?case
    using 2 by (simp add: Suc_le_eq)
qed

definition Find :: "config \<Rightarrow> store \<Rightarrow> table \<Rightarrow> string \<Rightarrow> error + int" where
  "Find cfg st tbl nm = Find_buf cfg st tbl nm True"

declare Find_buf.simps [simp del]

subsection \<open>Splitting a path at its last slash\<close>

text \<open>
  \<^verbatim>\<open>Add\<close> and \<^verbatim>\<open>Remove\<close> start with the same loops: the index \<^verbatim>\<open>slash\<close> of the
  last \<^verbatim>\<open>'/'\<close>, searched from the end and left unset when there is none; the bytes
  after it copied into \<^verbatim>\<open>char File[9]\<close>; the bytes before it copied into
  \<^verbatim>\<open>char Path[256]\<close>. Both buffers start zeroed, and neither copy is bounded.
\<close>

fun last_slash :: "string \<Rightarrow> nat \<Rightarrow> nat option" where
  "last_slash s 0 = None"
| "last_slash s (Suc i) = (if s ! i = CHR ''/'' then Some i else last_slash s i)"

definition split_path :: "string \<Rightarrow> error + (string \<times> string)" where
  "split_path nm =
     (let s = cstr nm; len = strlen nm
      in case last_slash s len of
           None \<Rightarrow> Inl UninitRead
         | Some slash \<Rightarrow>
             if 9 < len - (slash + 1) then Inl BufferOverrun
             else if 256 < slash then Inl BufferOverrun
             else Inr (take slash s, drop (slash + 1) s))"

text \<open>
  A leaf of 9 bytes fills \<^verbatim>\<open>File\<close> and leaves it without terminator. Reading it with
  a bound of more than 9 bytes runs past the buffer: \<^verbatim>\<open>strncpy\<close> does whenever it is
  called, \<^verbatim>\<open>strncmp\<close> does as soon as the first 9 bytes of a stored name are those of
  \<^verbatim>\<open>File\<close>.
\<close>

definition strncpy_File :: "config \<Rightarrow> string \<Rightarrow> string \<Rightarrow> error + string" where
  "strncpy_File cfg dst File =
     (if length File = 9 \<and> 9 < FileNameMaxLen cfg then Inl BufferOverrun
      else Inr (strncpy dst File (FileNameMaxLen cfg)))"

definition FindIndex_File :: "config \<Rightarrow> table \<Rightarrow> string \<Rightarrow> error + nat option" where
  "FindIndex_File cfg tbl File =
     (if length File = 9 \<and> 9 < FileNameMaxLen cfg then
        (if list_ex (\<lambda>e. inUse e \<and> take 9 (name e) = File) tbl then Inl BufferOverrun
         else Inr None)
      else Inr (FindIndex cfg tbl File))"

subsection \<open>Add\<close>

text \<open>
  The insertion loops of \<^verbatim>\<open>Add\<close>: the first index below \<open>bound\<close> whose entry is
  not in use. The loop over the parent directory is bounded by the \<^verbatim>\<open>tableSize\<close> of
  the directory \<^verbatim>\<open>Add\<close> was called on, not by the size of the table it scans.
\<close>

fun free_slot :: "nat \<Rightarrow> table \<Rightarrow> nat \<Rightarrow> error + nat option" where
  "free_slot 0 tbl i = Inr None"
| "free_slot (Suc n) tbl i =
     (if length tbl \<le> i then Inl BufferOverrun
      else if \<not> inUse (tbl ! i) then Inr (Some i)
      else free_slot n tbl (Suc i))"

definition Add :: "config \<Rightarrow> store \<Rightarrow> table \<Rightarrow> string \<Rightarrow> int \<Rightarrow> char
    \<Rightarrow> error + (bool \<times> table \<times> store)" where
  "Add cfg st tbl nm newSector inType =
     (case Find cfg st tbl nm of
        Inl e \<Rightarrow> Inl e
      | Inr found \<Rightarrow>
          if found \<noteq> - 1 then Inr (False, tbl, st)
          else (case split_path nm of
                  Inl e \<Rightarrow> Inl e
                | Inr (Path, File) \<Rightarrow>
                    if Path \<noteq> [] then
                      (case Find_buf cfg st tbl Path (length Path < 256) of
                         Inl e \<Rightarrow> Inl e
                       | Inr sec \<Rightarrow>
                           (case OpenFile cfg sec of
                              Inl e \<Rightarrow> Inl e
                            | Inr nextDirectory \<Rightarrow>
                                let nextDir = FetchFrom cfg st nextDirectory
                                in (case free_slot (length tbl) nextDir 0 of
                                      Inl e \<Rightarrow> Inl e
                                    | Inr None \<Rightarrow> Inr (False, tbl, st)
                                    | Inr (Some i) \<Rightarrow>
                                        (case strncpy_File cfg (name (nextDir ! i)) File of
                                           Inl e \<Rightarrow> Inl e
                                         | Inr nm' \<Rightarrow>
                                             Inr (True, tbl,
                                               WriteBack st nextDirectory
                                                 (nextDir[i := \<lparr>inUse = True, name = nm',
                                                    sector = newSector, type = inType\<rparr>]))))))
                    else
                      (case free_slot (length tbl) tbl 0 of
                         Inl e \<Rightarrow> Inl e
                       | Inr None \<Rightarrow> Inr (False, tbl, st)
                       | Inr (Some i) \<Rightarrow>
                           (case strncpy_File cfg (name (tbl ! i)) File of
                              Inl e \<Rightarrow> Inl e
                            | Inr nm' \<Rightarrow>
                                Inr (True,
                                  tbl[i := \<lparr>inUse = True, name = nm',
                                             sector = newSector, type = inType\<rparr>],
                                  st)))))"

subsection \<open>Remove\<close>

text \<open>
  With an empty \<^verbatim>\<open>Path\<close>, \<^verbatim>\<open>Remove\<close> looks up \<^verbatim>\<open>name\<close>, the whole path with
  its leading slash, where the other branch looks up \<^verbatim>\<open>File\<close>.
\<close>

definition Remove :: "config \<Rightarrow> store \<Rightarrow> table \<Rightarrow> string \<Rightarrow> error + (bool \<times> table \<times> store)" where
  "Remove cfg st tbl nm =
     (case Find cfg st tbl nm of
        Inl e \<Rightarrow> Inl e
      | Inr found \<Rightarrow>
          if found = - 1 then Inr (False, tbl, st)
          else (case split_path nm of
                  Inl e \<Rightarrow> Inl e
                | Inr (Path, File) \<Rightarrow>
                    if Path \<noteq> [] then
                      (case Find_buf cfg st tbl Path (length Path < 256) of
                         Inl e \<Rightarrow> Inl e
                       | Inr sec \<Rightarrow>
                           (case OpenFile cfg sec of
                              Inl e \<Rightarrow> Inl e
                            | Inr nextDirectory \<Rightarrow>
                                let nextDir = FetchFrom cfg st nextDirectory
                                in (case FindIndex_File cfg nextDir File of
                                      Inl e \<Rightarrow> Inl e
                                    | Inr None \<Rightarrow> Inr (False, tbl, st)
                                    | Inr (Some i) \<Rightarrow>
                                        Inr (True, tbl,
                                          WriteBack st nextDirectory
                                            (nextDir[i := (nextDir ! i)\<lparr>inUse := False\<rparr>])))))
                    else
                      (case FindIndex cfg tbl nm of
                         None \<Rightarrow> Inr (False, tbl, st)
                       | Some i \<Rightarrow> Inr (True, tbl[i := (tbl ! i)\<lparr>inUse := False\<rparr>], st))))"

subsection \<open>Sequences of requests\<close>

text \<open>
  A caller that runs \<^verbatim>\<open>Add\<close> on a list of requests in turn, and the request for
  a leaf at top level. \<open>free_slots\<close> counts the entries of a table that are not in use.
\<close>

fun Add_seq :: "config \<Rightarrow> store \<Rightarrow> table \<Rightarrow> (string \<times> int \<times> char) list
    \<Rightarrow> error + (bool list \<times> table \<times> store)" where
  "Add_seq cfg st tbl [] = Inr ([], tbl, st)"
| "Add_seq cfg st tbl ((nm, newSector, inType) # rs) =
     (case Add cfg st tbl nm newSector inType of
        Inl e \<Rightarrow> Inl e
      | Inr (ok, tbl', st') \<Rightarrow>
          (case Add_seq cfg st' tbl' rs of
             Inl e \<Rightarrow> Inl e
           | Inr (oks, tbl'', st'') \<Rightarrow> Inr (ok # oks, tbl'', st'')))"

definition top_level :: "string \<times> int \<times> char \<Rightarrow> string \<times> int \<times> char" where
  "top_level r = (CHR ''/'' # fst r, snd r)"

definition free_slots :: "table \<Rightarrow> nat" where
  "free_slots tbl = length (filter (\<lambda>e. \<not> inUse e) tbl)"

section \<open>Concrete inputs\<close>

text \<open>
  The header of a file of one byte whose index sector is sector 0; with a disk whose
  sector 0 lists sector 1, it owns the sectors 0 and 1.
\<close>

definition one_sector_header :: FileHeader where
  "one_sector_header =
     \<lparr>numBytes = 1, numSectors = 1, numLists = 1, dataSectorLists = 0 # replicate 28 (- 1)\<rparr>"

text \<open>
  The header and the index sectors that \<^verbatim>\<open>Allocate\<close> gives a file of
  \<open>128 * (32 + 1)\<close> bytes on an empty disk.
\<close>

definition two_list_header :: FileHeader where
  "two_list_header =
     \<lparr>numBytes = 4224, numSectors = 33, numLists = 2,
      dataSectorLists = 0 # 33 # replicate 27 (- 1)\<rparr>"

definition two_list_disk :: disk where
  "two_list_disk = blank_disk(0 := map int [1..<33], 33 := map int [34..<66])"

text \<open>
  Stores and tables for concrete runs: \<open>entry\<close> is an entry in use as \<^verbatim>\<open>Add\<close>
  writes it into a zeroed slot when \<open>FileNameMaxLen\<close> is 9; \<open>nachos2\<close> is a system
  whose directories have two entries.
\<close>

definition no_files :: store where
  "no_files = (\<lambda>s. [])"

definition entry :: "string \<Rightarrow> int \<Rightarrow> char \<Rightarrow> DirectoryEntry" where
  "entry leaf sec ty =
     \<lparr>inUse = True, name = strncpy (replicate 10 NUL) leaf 9, sector = sec, type = ty\<rparr>"

definition free_entry :: DirectoryEntry where
  "free_entry = \<lparr>inUse = False, name = replicate 10 NUL, sector = 0, type = NUL\<rparr>"

definition nachos2 :: config where
  "nachos2 = nachos\<lparr>NumDirEntries := 2\<rparr>"

definition dir_a :: table where
  "dir_a = (Directory_init nachos 10)[0 := entry ''a'' 17 (CHR ''F'')]"

definition dir_d :: table where
  "dir_d = (Directory_init nachos 10)[0 := entry ''d'' 50 (CHR ''D'')]"

definition dir_x :: table where
  "dir_x = (Directory_init nachos 10)[0 := entry ''x'' 77 (CHR ''F'')]"

definition dir_i :: table where
  "dir_i = (Directory_init nachos 10)[0 := entry ''abcdefghi'' 17 (CHR ''F'')]"

definition files_dx :: store where
  "files_dx = no_files(50 := dir_x)"

definition files_di :: store where
  "files_di = no_files(50 := dir_i)"

definition pair_ab :: table where
  "pair_ab = [entry ''a'' 10 (CHR ''F''), entry ''b'' 11 (CHR ''F'')]"

definition pair_b :: table where
  "pair_b = [free_entry, entry ''b'' 11 (CHR ''F'')]"

definition pair_cb :: table where
  "pair_cb = [entry ''c'' 12 (CHR ''F''), entry ''b'' 11 (CHR ''F'')]"

definition pair_d :: table where
  "pair_d = [entry ''d'' 50 (CHR ''D''), free_entry]"

definition files_d_a :: store where
  "files_d_a = no_files(50 := [entry ''a'' 10 (CHR ''F''), free_entry])"

definition files_d_ac :: store where
  "files_d_ac = no_files(50 := [entry ''a'' 10 (CHR ''F''), entry ''c'' 12 (CHR ''F'')])"

definition files_d_ab :: store where
  "files_d_ab = no_files(50 := pair_ab)"

section \<open>File header: allocation\<close>

lemma first_clear_replicate_True:
  "first_clear (replicate n True @ xs) = map_option (\<lambda>i. n + i) (first_clear xs)"
  by (induction n) (simp_all add: option.map_comp comp_def option.map_ident)

lemma NumClear_replicate_True: "NumClear (replicate n True @ xs) = NumClear xs"
  by (simp add: NumClear_def filter_replicate)

lemma NumClear_replicate_False: "NumClear (replicate n False) = int n"
  by (simp add: NumClear_def)

lemma alloc_data_full:
  "fst (FindAndSet fm) < 0 \<Longrightarrow> 0 < n \<Longrightarrow> alloc_data n fm buf j = Inl AssertFailed"
  by (cases n) (auto split: prod.splits)

text \<open>
  C2 as stated: Allocate fails exactly when the free map has fewer than
  \<open>num_sectors + num_lists\<close> clear bits, and on that failure the header record and the
  free map are unchanged. It does not hold. With no clear bit and a file of one byte,
  \<^verbatim>\<open>Allocate\<close> returns FALSE with the three size fields of the header already
  overwritten. With one clear bit, fewer than the \<open>1 + 1\<close> the file needs, it does
  not return FALSE: the test compares with \<open>num_sectors\<close> alone, and the run ends in a
  failed assertion.
\<close>

theorem Allocate_failure_counterexample:
  "Allocate nachos (FileHeader_init 29) (replicate 1024 True) blank_disk 1 =
     Inr (False, (FileHeader_init 29)\<lparr>numBytes := 1, numSectors := 1, numLists := 1\<rparr>,
          replicate 1024 True, blank_disk)
   \<and> (FileHeader_init 29)\<lparr>numBytes := 1, numSectors := 1, numLists := 1\<rparr> \<noteq> FileHeader_init 29
   \<and> NumClear (replicate 1023 True @ [False]) = 1
   \<and> Allocate nachos (FileHeader_init 29) (replicate 1023 True @ [False]) blank_disk 1 = Inl AssertFailed"
proof -
  have a: "NumClear (replicate 1024 True) = 0"
    by (simp add: NumClear_def filter_replicate)
  have b: "NumClear (replicate 1023 True @ [False]) = 1"
    by (simp add: NumClear_replicate_True) (simp add: NumClear_def)
  have d: "divRoundUp 1 128 = 1" "divRoundUp 1 32 = 1"
    by (simp_all add: divRoundUp_def)
  have f1: "FindAndSet (replicate 1023 True @ [False]) = (1023, replicate 1023 True @ [True])"
    by (simp add: FindAndSet_def first_clear_replicate_True list_update_append)
  have f2: "FindAndSet (replicate 1023 True @ [True]) = (- 1, replicate 1023 True @ [True])"
    by (simp add: FindAndSet_def first_clear_replicate_True)
  have "alloc_lists nachos (Suc 0) 0 ((FileHeader_init 29)\<lparr>numBytes := 1, numSectors := 1, numLists := 1\<rparr>)
          (replicate 1023 True @ [False]) blank_disk = Inl AssertFailed"
    using f1 alloc_data_full [of "replicate 1023 True @ [True]" 32 "replicate 32 0" 0] f2
    by (simp add: nachos_def FileHeader_init_def)
  then show ?thesis
    using a b d by (simp add: Allocate_def nachos_def FileHeader_init_def)
qed

lemma divRoundUp_nonneg: "0 < n \<Longrightarrow> 0 \<le> divRoundUp n (int L)"
proof (cases "L = 0")
  case True
  then show ?thesis by (simp add: divRoundUp_def)
next
  case False
  assume "0 < n"
  with False have "0 \<le> n + int L - 1" by simp
  with False show ?thesis
    by (simp add: divRoundUp_def pos_imp_zdiv_nonneg_iff)
qed

text \<open>\<^verbatim>\<open>Allocate\<close> returns FALSE at one place only, the test of the free map.\<close>

lemma Allocate_False_only:
  assumes "Allocate cfg h fm d f = Inr (False, h', fm', d')"
  shows "NumClear fm < divRoundUp f (int (SectorSize cfg))"
  using assms by (auto simp: Allocate_def Let_def split: sum.splits if_splits)

text \<open>
  C2 as amended: Allocate returns failure whenever the free map has fewer than
  \<open>num_sectors\<close> clear bits, and only when it has fewer than \<open>num_sectors + num_lists\<close>
  clear bits; whenever it returns failure, the free map and the disk are unchanged, and
  the header is the one it was called on with \<open>num_bytes\<close>, \<open>num_sectors\<close> and
  \<open>num_lists\<close> set for the requested size.
\<close>

theorem Allocate_reports_failure:
  "(NumClear fm < divRoundUp f (int (SectorSize cfg)) \<longrightarrow>
      Allocate cfg h fm d f =
        Inr (False,
             h\<lparr>numBytes := f, numSectors := divRoundUp f (int (SectorSize cfg)),
               numLists := divRoundUp (divRoundUp f (int (SectorSize cfg))) (int (SectorNumPerList cfg))\<rparr>,
             fm, d))
   \<and> (\<forall>h' fm' d'. Allocate cfg h fm d f = Inr (False, h', fm', d') \<longrightarrow>
         h' = h\<lparr>numBytes := f, numSectors := divRoundUp f (int (SectorSize cfg)),
                 numLists := divRoundUp (divRoundUp f (int (SectorSize cfg))) (int (SectorNumPerList cfg))\<rparr>
         \<and> fm' = fm \<and> d' = d
         \<and> NumClear fm < divRoundUp f (int (SectorSize cfg))
                           + divRoundUp (divRoundUp f (int (SectorSize cfg)))
                               (int (SectorNumPerList cfg)))"
proof (intro conjI allI impI)
  assume "NumClear fm < divRoundUp f (int (SectorSize cfg))"
  then show "Allocate cfg h fm d f =
        Inr (False,
             h\<lparr>numBytes := f, numSectors := divRoundUp f (int (SectorSize cfg)),
               numLists := divRoundUp (divRoundUp f (int (SectorSize cfg))) (int (SectorNumPerList cfg))\<rparr>,
             fm, d)"
    by (simp add: Allocate_def Let_def)
next
  fix h' fm' d'
  assume a: "Allocate cfg h fm d f = Inr (False, h', fm', d')"
  from a show "h' = h\<lparr>numBytes := f, numSectors := divRoundUp f (int (SectorSize cfg)),
                 numLists := divRoundUp (divRoundUp f (int (SectorSize cfg))) (int (SectorNumPerList cfg))\<rparr>"
    by (auto simp: Allocate_def Let_def split: sum.splits if_splits)
  from a show "fm' = fm"
    by (auto simp: Allocate_def Let_def split: sum.splits if_splits)
  from a show "d' = d"
    by (auto simp: Allocate_def Let_def split: sum.splits if_splits)
  from Allocate_False_only [OF a] have lt: "NumClear fm < divRoundUp f (int (SectorSize cfg))" .
  have "0 \<le> NumClear fm" by (simp add: NumClear_def)
  with lt have "0 < divRoundUp f (int (SectorSize cfg))" by simp
  from divRoundUp_nonneg [OF this, of "SectorNumPerList cfg"] lt
  show "NumClear fm < divRoundUp f (int (SectorSize cfg))
                           + divRoundUp (divRoundUp f (int (SectorSize cfg)))
                               (int (SectorNumPerList cfg))"
    by simp
qed

text \<open>
  The amended C2 on a full free map and a file of one byte: no bit is clear, fewer than
  the one data sector and fewer than the two sectors the file needs.
\<close>

theorem Allocate_reports_failure_witness:
  "NumClear (replicate 1024 True) < divRoundUp 1 (int (SectorSize nachos))
   \<and> Allocate nachos (FileHeader_init 29) (replicate 1024 True) blank_disk 1 =
        Inr (False, (FileHeader_init 29)\<lparr>numBytes := 1, numSectors := 1, numLists := 1\<rparr>,
             replicate 1024 True, blank_disk)
   \<and> NumClear (replicate 1024 True)
       < divRoundUp 1 (int (SectorSize nachos))
         + divRoundUp (divRoundUp 1 (int (SectorSize nachos))) (int (SectorNumPerList nachos))"
proof -
  note T = Allocate_reports_failure [where fm = "replicate 1024 True" and f = 1 and cfg = nachos
      and h = "FileHeader_init 29" and d = blank_disk]
  have a: "NumClear (replicate 1024 True) < divRoundUp 1 (int (SectorSize nachos))"
    by (simp add: NumClear_def filter_replicate divRoundUp_def nachos_def)
  have d: "divRoundUp 1 128 = 1" "divRoundUp 1 32 = 1"
    by (simp_all add: divRoundUp_def)
  from a T
  have r: "Allocate nachos (FileHeader_init 29) (replicate 1024 True) blank_disk 1 =
        Inr (False, (FileHeader_init 29)\<lparr>numBytes := 1,
               numSectors := divRoundUp 1 (int (SectorSize nachos)),
               numLists := divRoundUp (divRoundUp 1 (int (SectorSize nachos))) (int (SectorNumPerList nachos))\<rparr>,
             replicate 1024 True, blank_disk)"
    by blast
  with T have b: "NumClear (replicate 1024 True)
       < divRoundUp 1 (int (SectorSize nachos))
         + divRoundUp (divRoundUp 1 (int (SectorSize nachos))) (int (SectorNumPerList nachos))"
    by blast
  from r have "Allocate nachos (FileHeader_init 29) (replicate 1024 True) blank_disk 1 =
        Inr (False, (FileHeader_init 29)\<lparr>numBytes := 1, numSectors := 1, numLists := 1\<rparr>,
             replicate 1024 True, blank_disk)"
    using d by (simp add: nachos_def)
  with a b show ?thesis by blast
qed

text \<open>
  A file of one byte on an empty disk of 1024 sectors: \<^verbatim>\<open>Allocate\<close> succeeds, the
  header counts one data sector and one list, the index sector 0 lists the 32 sectors
  1 to 32, and 33 bits of the free map are set.
\<close>

lemma Allocate_one_byte:
  "(case Allocate nachos (FileHeader_init 29) (replicate 1024 False) blank_disk 1 of
      Inl e \<Rightarrow> False
    | Inr (ok, h, fm, d) \<Rightarrow>
        ok \<and> numSectors h = 1 \<and> numLists h = 1 \<and> NumClear fm = 1024 - 33
        \<and> dataSectorLists h ! 0 = 0 \<and> d 0 = map int [1..<33])"
  by code_simp

text \<open>
  C3: when Allocate succeeds, list \<open>i\<close> reserves one index sector and then exactly
  \<open>min(L, num_sectors - i * L)\<close> data sectors, so that \<open>num_sectors\<close> data sectors and
  \<open>num_lists\<close> index sectors are set in the free map. The code bounds the inner loop
  by the disk constant \<^verbatim>\<open>NumSectors\<close> where \<^verbatim>\<open>Deallocate\<close> and \<^verbatim>\<open>Print\<close> use the
  field \<^verbatim>\<open>numSectors\<close>: for a file of one byte it reserves 32 data sectors, 33 sectors
  in all where the claim counts \<open>1 + 1\<close>.
\<close>

theorem Allocate_reserves_whole_list:
  "(case Allocate nachos (FileHeader_init 29) (replicate 1024 False) blank_disk 1 of
      Inl e \<Rightarrow> False
    | Inr (ok, h, fm, d) \<Rightarrow>
        ok \<and> numSectors h + numLists h = 2
        \<and> NumClear (replicate 1024 False) - NumClear fm = 33
        \<and> d (dataSectorLists h ! 0) = map int [1..<33])"
  using Allocate_one_byte by (auto simp: NumClear_replicate_False split: sum.splits)

section \<open>File header: deallocation\<close>

lemma NumClear_Clear:
  "i < length fm \<Longrightarrow> fm ! i \<Longrightarrow> NumClear (fm[i := False]) = NumClear fm + 1"
proof (induction fm arbitrary: i)
  case Nil
  then show ?case by simp
next
  case (Cons b bs)
  show ?case
  proof (cases i)
    case 0
    with Cons.prems show ?thesis by (simp add: NumClear_def)
  next
    case (Suc k)
    with Cons.prems have "NumClear (bs[k := False]) = NumClear bs + 1"
      by (intro Cons.IH) simp_all
    with Suc show ?thesis by (simp add: NumClear_def)
  qed
qed

text \<open>Every round of the inner loop clears one bit that was set.\<close>

lemma dealloc_data_NumClear:
  "dealloc_data cfg buffer n j fm = Inr fm' \<Longrightarrow> NumClear fm' = NumClear fm + int n"
proof (induction n arbitrary: j fm)
  case 0
  then show ?case by simp
next
  case (Suc n)
  from Suc.prems obtain fm1 where
    t: "0 \<le> buffer j" "buffer j < int (length fm)" "fm ! nat (buffer j)"
    and c: "fm1 = fm[nat (buffer j) := False]"
    and r: "dealloc_data cfg buffer n (Suc j) fm1 = Inr fm'"
    by (auto simp: Test_def Clear_def split: if_splits sum.splits)
  have "NumClear fm1 = NumClear fm + 1"
    unfolding c using t by (intro NumClear_Clear) auto
  with Suc.IH [OF r] show ?case by simp
qed

text \<open>For a header of one list and one data sector, exactly one bit is cleared.\<close>

lemma Deallocate_single:
  assumes "Deallocate cfg junk h fm = Inr fm'" "numLists h = 1" "numSectors h = 1"
    and "0 < SectorNumPerList cfg"
  shows "NumClear fm' = NumClear fm + 1"
proof -
  have "dealloc_data cfg (junk 0) 1 0 fm = Inr fm'"
  proof (cases "1 < SectorNumPerList cfg")
    case True
    with assms(1-3) show ?thesis
      by (simp add: Deallocate_def Let_def split: sum.splits del: dealloc_data.simps)
  next
    case False
    with assms(4) have "SectorNumPerList cfg = 1" by simp
    with assms(1-3) show ?thesis
      by (simp add: Deallocate_def Let_def split: sum.splits del: dealloc_data.simps)
  qed
  from dealloc_data_NumClear [OF this] show ?thesis by simp
qed

text \<open>
  C4: for a well-formed header, Deallocate reads the index sector of each list, clears
  the bit of every data sector it lists and then the bit of the index sector itself.
  The code reads no sector: it tests and clears the sectors named by a buffer it has
  just allocated, and it never clears \<open>data_sector_lists[i]\<close>. For the header that owns
  the index sector 0 and the data sector 1, the claim leaves both bits clear; whatever
  the buffer holds, the code does not.
\<close>

theorem Deallocate_leaves_sector_set:
  "Deallocate nachos junk one_sector_header (True # True # replicate 1022 False)
     \<noteq> Inr (replicate 1024 False)"
proof
  assume "Deallocate nachos junk one_sector_header (True # True # replicate 1022 False)
            = Inr (replicate 1024 False)"
  from Deallocate_single [OF this] show False
    by (simp add: one_sector_header_def NumClear_def nachos_def)
qed

text \<open>
  C5: if Allocate on the free map \<open>B\<close> succeeds with header \<open>h\<close> and free map \<open>B'\<close>,
  then Deallocate on \<open>B'\<close> and \<open>h\<close> gives back \<open>B\<close> on the sectors touched. On the
  empty free map and a file of one byte, \<^verbatim>\<open>Allocate\<close> sets 33 bits and
  \<^verbatim>\<open>Deallocate\<close> clears one bit at most, whatever its buffer holds.
\<close>

theorem Allocate_Deallocate_not_neutral:
  "(case Allocate nachos (FileHeader_init 29) (replicate 1024 False) blank_disk 1 of
      Inl e \<Rightarrow> False
    | Inr (ok, h, fm, d) \<Rightarrow>
        ok \<and> Deallocate nachos junk h fm \<noteq> Inr (replicate 1024 False))"
proof -
  obtain ok h fm d where
    a: "Allocate nachos (FileHeader_init 29) (replicate 1024 False) blank_disk 1 = Inr (ok, h, fm, d)"
    and f: "ok" "numSectors h = 1" "numLists h = 1" "NumClear fm = 1024 - 33"
    using Allocate_one_byte by (auto split: sum.splits)
  have "Deallocate nachos junk h fm \<noteq> Inr (replicate 1024 False)"
  proof
    assume "Deallocate nachos junk h fm = Inr (replicate 1024 False)"
    from Deallocate_single [OF this f(3) f(2)] f(4) show False
      by (simp add: NumClear_replicate_False nachos_def)
  qed
  with a f show ?thesis by simp
qed

section \<open>File header: offsets\<close>

lemma div_less_divRoundUp:
  assumes "0 \<le> a" "a < b" "0 < s"
  shows "a div s < divRoundUp b s"
proof -
  have "a div s \<le> (b - 1) div s"
    using assms by (intro zdiv_mono1) auto
  also have "(b - 1) div s < (b - 1) div s + 1" by simp
  also have "(b - 1) div s + 1 = (b - 1 + s) div s"
    using assms(3) div_add_self2 [of s "b - 1"] by simp
  finally show ?thesis
    by (simp add: divRoundUp_def algebra_simps)
qed

lemma divRoundUp_mult:
  assumes "0 < s"
  shows "divRoundUp (s * n) s = n"
proof -
  have "(s - 1 + n * s) div s = n + (s - 1) div s"
    using assms by (intro div_mult_self1) simp
  also have "(s - 1) div s = 0"
    using assms by (intro div_pos_pos_trivial) simp_all
  finally show ?thesis
    by (simp add: divRoundUp_def algebra_simps)
qed

lemma ByteToSector_slot:
  assumes S: "0 < SectorSize cfg" and L: "0 < SectorNumPerList cfg"
    and off: "0 \<le> offset" "offset < numBytes h"
    and I4: "numSectors h = divRoundUp (numBytes h) (int (SectorSize cfg))"
            "numLists h = divRoundUp (numSectors h) (int (SectorNumPerList cfg))"
    and fits: "numLists h \<le> int (length (dataSectorLists h))"
    and I2: "\<forall>i < nat (numLists h).
               0 \<le> dataSectorLists h ! i \<and> dataSectorLists h ! i < int (NumSectors cfg)
               \<and> length (d (dataSectorLists h ! i)) = SectorNumPerList cfg"
  defines "k \<equiv> offset div int (SectorSize cfg)"
  defines "i \<equiv> nat (k div int (SectorNumPerList cfg))"
  defines "j \<equiv> nat (k mod int (SectorNumPerList cfg))"
  shows "i < nat (numLists h) \<and> j < SectorNumPerList cfg
         \<and> ByteToSector cfg h d offset = Inr (d (dataSectorLists h ! i) ! j)"
proof -
  have k0: "0 \<le> k" using off S by (simp add: k_def pos_imp_zdiv_nonneg_iff)
  have kn: "k < numSectors h"
    unfolding k_def I4(1) using off S by (intro div_less_divRoundUp) auto
  have i0: "0 \<le> k div int (SectorNumPerList cfg)"
    using k0 L by (simp add: pos_imp_zdiv_nonneg_iff)
  have il: "k div int (SectorNumPerList cfg) < numLists h"
    unfolding I4(2) using k0 kn L by (intro div_less_divRoundUp) auto
  have i_lt: "i < nat (numLists h)" using i0 il by (simp add: i_def)
  have j0: "0 \<le> k mod int (SectorNumPerList cfg)" using L by simp
  have jl: "k mod int (SectorNumPerList cfg) < int (SectorNumPerList cfg)" using L by simp
  have j_lt: "j < SectorNumPerList cfg" using j0 jl by (simp add: j_def)
  have sd: "offset sdiv int (SectorSize cfg) = k"
    using off S by (simp add: k_def signed_divide_int_def sgn_if)
  have sd2: "k sdiv int (SectorNumPerList cfg) = k div int (SectorNumPerList cfg)"
    using k0 L by (simp add: signed_divide_int_def sgn_if)
  have sm: "k smod int (SectorNumPerList cfg) = k mod int (SectorNumPerList cfg)"
    using k0 L by (simp add: signed_modulo_int_def sgn_if)
  from I2 i_lt have ok: "0 \<le> dataSectorLists h ! i" "dataSectorLists h ! i < int (NumSectors cfg)"
    "length (d (dataSectorLists h ! i)) = SectorNumPerList cfg" by auto
  have "ByteToSector cfg h d offset = Inr (d (dataSectorLists h ! i) ! j)"
    using i0 il fits ok j0 jl
    by (simp add: ByteToSector_def Let_def sd sd2 sm ReadSector_def i_def [symmetric] j_def [symmetric])
  with i_lt j_lt show ?thesis by simp
qed


lemma Allocate_two_lists:
  "(case Allocate nachos (FileHeader_init 29) (replicate 1024 False) blank_disk 4224 of
      Inl e \<Rightarrow> False
    | Inr (ok, h, fm, d) \<Rightarrow>
        ok \<and> h = two_list_header \<and> d 0 = two_list_disk 0 \<and> d 33 = two_list_disk 33)"
  by code_simp

text \<open>
  C7: for a header with \<open>num_bytes > 0\<close> and an offset with \<open>0 \<le> offset < num_bytes\<close>,
  ByteToSector computes \<open>k = offset / S\<close>, \<open>i = k / L\<close>, \<open>j = k mod L\<close>, reads the index
  sector \<open>data_sector_lists[i]\<close> and returns its slot \<open>j\<close>; for a file of \<open>S * (L + 1)\<close>
  bytes, offset 0 goes through \<open>data_sector_lists[0]\<close> and offset \<open>S * L\<close> through
  \<open>data_sector_lists[1]\<close>. The header satisfies I4, its lists fit the array, and its
  index sectors are sectors of the disk holding \<open>L\<close> numbers (I2).
\<close>

theorem ByteToSector_translates:
  assumes S: "0 < SectorSize cfg" and L: "0 < SectorNumPerList cfg"
    and off: "0 \<le> offset" "offset < numBytes h"
    and I4: "numSectors h = divRoundUp (numBytes h) (int (SectorSize cfg))"
            "numLists h = divRoundUp (numSectors h) (int (SectorNumPerList cfg))"
    and fits: "numLists h \<le> int (length (dataSectorLists h))"
    and I2: "\<forall>i < nat (numLists h).
               0 \<le> dataSectorLists h ! i \<and> dataSectorLists h ! i < int (NumSectors cfg)
               \<and> length (d (dataSectorLists h ! i)) = SectorNumPerList cfg"
  shows "(let k = offset div int (SectorSize cfg);
              i = nat (k div int (SectorNumPerList cfg));
              j = nat (k mod int (SectorNumPerList cfg))
          in i < nat (numLists h) \<and> j < SectorNumPerList cfg
             \<and> ByteToSector cfg h d offset = Inr (d (dataSectorLists h ! i) ! j))
         \<and> (numBytes h = int (SectorSize cfg) * (int (SectorNumPerList cfg) + 1) \<longrightarrow>
              numLists h = 2
              \<and> ByteToSector cfg h d 0 = Inr (d (dataSectorLists h ! 0) ! 0)
              \<and> ByteToSector cfg h d (int (SectorSize cfg) * int (SectorNumPerList cfg))
                  = Inr (d (dataSectorLists h ! 1) ! 0))"
proof (intro conjI impI)
  show "let k = offset div int (SectorSize cfg);
            i = nat (k div int (SectorNumPerList cfg));
            j = nat (k mod int (SectorNumPerList cfg))
        in i < nat (numLists h) \<and> j < SectorNumPerList cfg
           \<and> ByteToSector cfg h d offset = Inr (d (dataSectorLists h ! i) ! j)"
    using ByteToSector_slot [OF S L off I4 fits I2] by (simp add: Let_def)
next
  assume nb: "numBytes h = int (SectorSize cfg) * (int (SectorNumPerList cfg) + 1)"
  have pos: "0 < int (SectorSize cfg) * int (SectorNumPerList cfg)"
    using S L by simp
  have ns: "numSectors h = int (SectorNumPerList cfg) + 1"
    using S divRoundUp_mult [of "int (SectorSize cfg)" "int (SectorNumPerList cfg) + 1"]
    by (simp add: I4(1) nb)
  show nl: "numLists h = 2"
  proof -
    have "numLists h = (int (SectorNumPerList cfg) + int (SectorNumPerList cfg)) div int (SectorNumPerList cfg)"
      by (simp add: I4(2) ns divRoundUp_def)
    also have "\<dots> = 2" using L by simp
    finally show ?thesis .
  qed
  have z: "(0::int) < numBytes h" using off by simp
  from ByteToSector_slot [OF S L _ z I4 fits I2]
  show "ByteToSector cfg h d 0 = Inr (d (dataSectorLists h ! 0) ! 0)" by simp
  have lt: "int (SectorSize cfg) * int (SectorNumPerList cfg) < numBytes h"
    using S by (simp add: nb algebra_simps)
  from ByteToSector_slot [OF S L _ lt I4 fits I2] S L
  show "ByteToSector cfg h d (int (SectorSize cfg) * int (SectorNumPerList cfg))
          = Inr (d (dataSectorLists h ! 1) ! 0)"
    by simp
qed

text \<open>
  C7 on the file of 4224 bytes: offset 4100 and offset \<open>S * L = 4096\<close> are in sector 34,
  found through the index sector 33; offset 0 is in sector 1, found through the index
  sector 0.
\<close>

theorem ByteToSector_translates_witness:
  "0 < SectorSize nachos \<and> 0 < SectorNumPerList nachos
   \<and> (0::int) \<le> 4100 \<and> 4100 < numBytes two_list_header
   \<and> numSectors two_list_header = divRoundUp (numBytes two_list_header) (int (SectorSize nachos))
   \<and> numLists two_list_header = divRoundUp (numSectors two_list_header) (int (SectorNumPerList nachos))
   \<and> numLists two_list_header \<le> int (length (dataSectorLists two_list_header))
   \<and> numBytes two_list_header = int (SectorSize nachos) * (int (SectorNumPerList nachos) + 1)
   \<and> ByteToSector nachos two_list_header two_list_disk 4100 = Inr 34
   \<and> ByteToSector nachos two_list_header two_list_disk 0 = Inr 1
   \<and> ByteToSector nachos two_list_header two_list_disk 4096 = Inr 34"
proof -
  have h1: "0 < SectorSize nachos" "0 < SectorNumPerList nachos"
    by (simp_all add: nachos_def)
  have h2: "(0::int) \<le> 4100" "4100 < numBytes two_list_header"
    by (simp_all add: two_list_header_def)
  have h3: "numSectors two_list_header = divRoundUp (numBytes two_list_header) (int (SectorSize nachos))"
    "numLists two_list_header = divRoundUp (numSectors two_list_header) (int (SectorNumPerList nachos))"
    by (simp_all add: two_list_header_def nachos_def divRoundUp_def)
  have h4: "numLists two_list_header \<le> int (length (dataSectorLists two_list_header))"
    by (simp add: two_list_header_def)
  have h5: "\<forall>i < nat (numLists two_list_header).
         0 \<le> dataSectorLists two_list_header ! i
         \<and> dataSectorLists two_list_header ! i < int (NumSectors nachos)
         \<and> length (two_list_disk (dataSectorLists two_list_header ! i)) = SectorNumPerList nachos"
    by (simp add: two_list_header_def two_list_disk_def nachos_def numeral_2_eq_2 less_Suc_eq)
  have h6: "numBytes two_list_header = int (SectorSize nachos) * (int (SectorNumPerList nachos) + 1)"
    by (simp add: two_list_header_def nachos_def)
  have v: "two_list_disk 0 ! 0 = 1" "two_list_disk 33 ! 0 = 34"
    by (simp_all add: two_list_disk_def upt_conv_Cons)
  from ByteToSector_translates [OF h1 h2 h3 h4 h5] h6 v
  have "ByteToSector nachos two_list_header two_list_disk 4100 = Inr 34
   \<and> ByteToSector nachos two_list_header two_list_disk 0 = Inr 1
   \<and> ByteToSector nachos two_list_header two_list_disk 4096 = Inr 34"
    by (simp add: two_list_header_def nachos_def Let_def)
  with h1 h2 h3 h4 h6 show ?thesis by blast
qed

section \<open>Directory: C strings\<close>

lemma cstr_id: "NUL \<notin> set s \<Longrightarrow> cstr s = s"
  unfolding cstr_def by (induction s) auto

lemma cstr_append: "NUL \<notin> set a \<Longrightarrow> cstr (a @ b) = a @ cstr b"
  unfolding cstr_def by (induction a) auto

lemma cstr_NUL_Cons: "cstr (NUL # b) = []"
  by (simp add: cstr_def)

lemma strncmp_Nil_Nil: "strncmp [] [] n = 0"
  by (cases n) (simp_all add: byte_at_def)

lemma strncmp_Cons_Cons:
  "strncmp (x # xs) (y # ys) (Suc n) =
     (if x \<noteq> y then int (of_char x) - int (of_char y) else if x = NUL then 0 else strncmp xs ys n)"
  by (simp add: byte_at_def)

lemma strncmp_Nil_Cons:
  "strncmp [] (y # ys) (Suc n) = (if NUL \<noteq> y then int (of_char NUL) - int (of_char y) else 0)"
  by (simp add: byte_at_def)

lemma strncmp_Cons_Nil:
  "strncmp (x # xs) [] (Suc n) = (if x \<noteq> NUL then int (of_char x) - int (of_char NUL) else 0)"
  by (simp add: byte_at_def)

text \<open>
  \<^verbatim>\<open>strncmp\<close> with bound \<open>n\<close> returns 0 exactly when the two strings agree on their
  first \<open>n\<close> bytes.
\<close>

lemma strncmp_zero_iff:
  "strncmp a b n = 0 \<longleftrightarrow> take n (cstr a) = take n (cstr b)"
proof (induction n arbitrary: a b)
  case 0
  show ?case by simp
next
  case (Suc n)
  show ?case
  proof (cases a)
    case Nil
    then show ?thesis
      by (cases b) (simp_all add: strncmp_Nil_Nil strncmp_Nil_Cons cstr_def del: strncmp.simps)
  next
    case ca: (Cons x xs)
    show ?thesis
    proof (cases b)
      case Nil
      with ca show ?thesis by (simp add: strncmp_Cons_Nil cstr_def del: strncmp.simps)
    next
      case (Cons y ys)
      with ca Suc.IH [of xs ys] show ?thesis
        by (simp add: strncmp_Cons_Cons cstr_def del: strncmp.simps)
    qed
  qed
qed

lemma strncmp_prefix:
  assumes "take n (cstr n1) = take n (cstr n2)"
  shows "strncmp s n1 n = 0 \<longleftrightarrow> strncmp s n2 n = 0"
  by (simp only: strncmp_zero_iff assms)

text \<open>
  What \<^verbatim>\<open>strncpy\<close> with bound \<open>n\<close> stores compares, over \<open>n\<close> bytes, as the first
  \<open>n\<close> bytes of the source.
\<close>

lemma strncpy_prefix:
  assumes "NUL \<notin> set leaf"
  shows "take n (cstr (strncpy dst leaf n)) = take n leaf"
proof (cases "n \<le> length leaf")
  case True
  then have "strncpy dst leaf n = take n leaf @ drop n dst"
    using assms by (simp add: strncpy_def cstr_id)
  moreover have "NUL \<notin> set (take n leaf)"
    using assms by (meson in_set_takeD)
  ultimately have "cstr (strncpy dst leaf n) = take n leaf @ cstr (drop n dst)"
    by (simp add: cstr_append)
  with True show ?thesis by simp
next
  case False
  then obtain m where m: "n - length leaf = Suc m"
    by (metis Suc_diff_Suc diff_zero not_le zero_less_diff)
  from m have le: "Suc m \<le> n" by simp
  have "take n (leaf @ replicate n NUL) = leaf @ replicate (Suc m) NUL"
    using False m le by (simp add: min_def del: replicate_Suc)
  then have "strncpy dst leaf n = leaf @ NUL # (replicate m NUL @ drop n dst)"
    using assms by (simp add: strncpy_def cstr_id)
  then have "cstr (strncpy dst leaf n) = leaf"
    using assms by (simp add: cstr_append cstr_NUL_Cons)
  with False show ?thesis by simp
qed

lemma strncpy_File_Inr:
  "strncpy_File cfg dst File = Inr nm' \<Longrightarrow> nm' = strncpy dst File (FileNameMaxLen cfg)"
  by (simp add: strncpy_File_def split: if_splits)

section \<open>Directory: lookup\<close>

text \<open>
  \<^verbatim>\<open>FindIndex\<close> sees at most the first \<open>FileNameMaxLen\<close> bytes of the name it is
  given.
\<close>

lemma FindIndex_from_cong:
  assumes "take (FileNameMaxLen cfg) (cstr n1) = take (FileNameMaxLen cfg) (cstr n2)"
  shows "FindIndex_from cfg tbl n1 i = FindIndex_from cfg tbl n2 i"
proof (induction tbl arbitrary: i)
  case Nil
  show ?case by simp
next
  case (Cons e es)
  show ?case
    using strncmp_prefix [OF assms, of "name e"] Cons.IH [of "Suc i"]
    by (simp only: FindIndex_from.simps)
qed

lemma FindIndex_prefix:
  assumes "take (FileNameMaxLen cfg) (cstr n1) = take (FileNameMaxLen cfg) (cstr n2)"
  shows "FindIndex cfg tbl n1 = FindIndex cfg tbl n2"
  unfolding FindIndex_def by (rule FindIndex_from_cong [OF assms])

lemma FindIndex_from_None_iff:
  "FindIndex_from cfg tbl nm k = None \<longleftrightarrow>
     (\<forall>e \<in> set tbl. \<not> (inUse e \<and> strncmp (name e) nm (FileNameMaxLen cfg) = 0))"
  by (induction tbl arbitrary: k) simp_all

lemma FindIndex_None_iff:
  "FindIndex cfg tbl nm = None \<longleftrightarrow>
     (\<forall>e \<in> set tbl. \<not> (inUse e \<and> strncmp (name e) nm (FileNameMaxLen cfg) = 0))"
  by (simp add: FindIndex_def FindIndex_from_None_iff)

lemma length_Directory_init: "length (Directory_init cfg n) = n"
  by (simp add: Directory_init_def)

lemma length_FetchFrom: "length (FetchFrom cfg st f) = NumDirEntries cfg"
  by (simp add: FetchFrom_def length_Directory_init)

lemma OpenFile_Inr: "OpenFile cfg s = Inr f \<Longrightarrow> f = s"
  by (simp add: OpenFile_def split: if_splits)

text \<open>
  \<^verbatim>\<open>Find\<close> on a path with a single component is one lookup in the table.
\<close>

lemma Find_top:
  assumes "CHR ''/'' \<notin> set leaf" "NUL \<notin> set leaf" "length leaf \<le> 128"
  shows "Find cfg st tbl (CHR ''/'' # leaf) =
           (case FindIndex cfg tbl leaf of None \<Rightarrow> Inr (- 1) | Some i \<Rightarrow> Inr (sector (tbl ! i)))"
proof -
  have "NUL \<notin> set (CHR ''/'' # leaf)" using assms(2) by (simp add: NUL_def)
  then have c: "cstr (CHR ''/'' # leaf) = CHR ''/'' # leaf" by (rule cstr_id)
  have t: "takeWhile (\<lambda>x. x \<noteq> CHR ''/'') leaf = leaf" "dropWhile (\<lambda>x. x \<noteq> CHR ''/'') leaf = []"
    using assms(1) by (induction leaf) auto
  show ?thesis
    unfolding Find_def
    by (subst Find_buf.simps) (use assms(1,3) in \<open>simp add: c t split: option.splits\<close>)
qed

section \<open>Directory: splitting paths\<close>

lemma last_slash_Some_iff:
  "last_slash s n = Some i \<longleftrightarrow>
     i < n \<and> s ! i = CHR ''/'' \<and> (\<forall>j. i < j \<and> j < n \<longrightarrow> s ! j \<noteq> CHR ''/'')"
proof (induction n)
  case 0
  show ?case by simp
next
  case (Suc n)
  show ?case
  proof (cases "s ! n = CHR ''/''")
    case True
    have "i = n" if "i < Suc n" "\<forall>j. i < j \<and> j < Suc n \<longrightarrow> s ! j \<noteq> CHR ''/''"
      using that True by (metis less_Suc_eq linorder_neqE_nat)
    with True show ?thesis by auto
  next
    case False
    then have "last_slash s (Suc n) = last_slash s n" by simp
    moreover have "(i < Suc n \<and> s ! i = CHR ''/'' \<and> (\<forall>j. i < j \<and> j < Suc n \<longrightarrow> s ! j \<noteq> CHR ''/''))
      \<longleftrightarrow> (i < n \<and> s ! i = CHR ''/'' \<and> (\<forall>j. i < j \<and> j < n \<longrightarrow> s ! j \<noteq> CHR ''/''))"
      using False by (metis less_Suc_eq)
    ultimately show ?thesis using Suc.IH by simp
  qed
qed

lemma last_slash_top:
  assumes "CHR ''/'' \<notin> set leaf"
  shows "last_slash (CHR ''/'' # leaf) (Suc (length leaf)) = Some 0"
proof -
  have "(CHR ''/'' # leaf) ! j \<noteq> CHR ''/''" if "0 < j" "j < Suc (length leaf)" for j
    using that assms by (cases j) (auto simp: in_set_conv_nth)
  then show ?thesis
    unfolding last_slash_Some_iff by simp
qed

lemma split_path_top:
  assumes "CHR ''/'' \<notin> set leaf" "NUL \<notin> set leaf" "length leaf \<le> 9"
  shows "split_path (CHR ''/'' # leaf) = Inr ([], leaf)"
proof -
  have "NUL \<notin> set (CHR ''/'' # leaf)" using assms(2) by (simp add: NUL_def)
  then have c: "cstr (CHR ''/'' # leaf) = CHR ''/'' # leaf" by (rule cstr_id)
  show ?thesis
    using assms(3) last_slash_top [OF assms(1)]
    by (simp add: split_path_def strlen_def c Let_def del: last_slash.simps)
qed

lemma split_path_interior:
  assumes "last_slash (cstr nm) (strlen nm) = Some slash" "0 < slash"
    and "split_path nm = Inr (Path, File)"
  shows "Path = take slash (cstr nm) \<and> Path \<noteq> [] \<and> File = drop (Suc slash) (cstr nm)
         \<and> (length Path < 256 \<longleftrightarrow> slash < 256)"
proof -
  from assms(1) have "slash < strlen nm" by (simp add: last_slash_Some_iff)
  with assms show ?thesis
    by (auto simp: split_path_def Let_def strlen_def split: if_splits)
qed

section \<open>Directory: Add\<close>

lemma free_slot_Some:
  "free_slot n tbl i = Inr (Some j) \<Longrightarrow>
     i \<le> j \<and> j < i + n \<and> j < length tbl \<and> \<not> inUse (tbl ! j)
     \<and> (\<forall>k. i \<le> k \<and> k < j \<longrightarrow> inUse (tbl ! k))"
proof (induction n arbitrary: i)
  case 0
  then show ?case by simp
next
  case (Suc n)
  show ?case
  proof (cases "inUse (tbl ! i)")
    case False
    with Suc.prems have "j = i" "i < length tbl" by (auto split: if_splits)
    with False show ?thesis by auto
  next
    case True
    with Suc.prems have r: "free_slot n tbl (Suc i) = Inr (Some j)"
      by (auto split: if_splits)
    from Suc.IH [OF r] True show ?thesis
      by (auto simp: Suc_le_eq) (metis Suc_leI le_neq_implies_less)
  qed
qed

lemma free_slot_None:
  "free_slot n tbl i = Inr None \<Longrightarrow> (\<forall>k. i \<le> k \<and> k < i + n \<longrightarrow> k < length tbl \<and> inUse (tbl ! k))"
proof (induction n arbitrary: i)
  case 0
  then show ?case by auto
next
  case (Suc n)
  from Suc.prems have a: "i < length tbl" "inUse (tbl ! i)" and r: "free_slot n tbl (Suc i) = Inr None"
    by (auto split: if_splits)
  from Suc.IH [OF r] a show ?case
    by (auto simp: Suc_le_eq) (metis le_neq_implies_less)+
qed

lemma free_slot_total:
  "i + n \<le> length tbl \<Longrightarrow> \<exists>r. free_slot n tbl i = Inr r"
  by (induction n arbitrary: i) auto

lemma free_slot_full:
  assumes "\<forall>e \<in> set tbl. inUse e"
  shows "free_slot (length tbl) tbl 0 = Inr None"
proof -
  from free_slot_total [of 0 "length tbl" tbl] obtain r where r: "free_slot (length tbl) tbl 0 = Inr r"
    by auto
  show ?thesis
  proof (cases r)
    case None
    with r show ?thesis by simp
  next
    case (Some j)
    with r free_slot_Some [of "length tbl" tbl 0 j] assms show ?thesis
      by (auto simp: all_set_conv_all_nth)
  qed
qed

lemma free_slot_finds:
  assumes "\<not> (\<forall>e \<in> set tbl. inUse e)"
  shows "\<exists>j. free_slot (length tbl) tbl 0 = Inr (Some j)"
proof -
  from free_slot_total [of 0 "length tbl" tbl] obtain r where r: "free_slot (length tbl) tbl 0 = Inr r"
    by auto
  show ?thesis
  proof (cases r)
    case None
    with r free_slot_None [of "length tbl" tbl 0] assms show ?thesis
      by (auto simp: all_set_conv_all_nth)
  next
    case (Some j)
    with r show ?thesis by simp
  qed
qed

lemma free_slot_all_used:
  "i + n \<le> length tbl \<Longrightarrow> \<forall>e \<in> set tbl. inUse e \<Longrightarrow> free_slot n tbl i = Inr None"
  by (induction n arbitrary: i) simp_all

lemma free_slots_update:
  "j < length tbl \<Longrightarrow> \<not> inUse (tbl ! j) \<Longrightarrow> inUse e \<Longrightarrow>
     Suc (free_slots (tbl[j := e])) = free_slots tbl"
proof (induction tbl arbitrary: j)
  case Nil
  then show ?case by simp
next
  case (Cons x xs)
  show ?case
  proof (cases j)
    case 0
    with Cons.prems show ?thesis by (simp add: free_slots_def)
  next
    case (Suc k)
    with Cons.prems have "Suc (free_slots (xs[k := e])) = free_slots xs"
      by (intro Cons.IH) simp_all
    with Suc show ?thesis by (simp add: free_slots_def)
  qed
qed

lemma free_slots_zero: "free_slots tbl = 0 \<longleftrightarrow> (\<forall>e \<in> set tbl. inUse e)"
  by (auto simp: free_slots_def filter_empty_conv)

lemma free_slots_init: "free_slots (Directory_init cfg n) = n"
  by (simp add: free_slots_def Directory_init_def)

lemma Add_top_insert:
  assumes wf: "CHR ''/'' \<notin> set leaf" "NUL \<notin> set leaf" "length leaf \<le> 9"
    and N: "FileNameMaxLen cfg \<le> 9"
    and nf: "FindIndex cfg tbl leaf = None"
    and fs: "free_slot (length tbl) tbl 0 = Inr (Some i)"
  shows "Add cfg st tbl (CHR ''/'' # leaf) newSector inType =
           Inr (True, tbl[i := \<lparr>inUse = True, name = strncpy (name (tbl ! i)) leaf (FileNameMaxLen cfg),
                                 sector = newSector, type = inType\<rparr>], st)"
proof -
  have f: "Find cfg st tbl (CHR ''/'' # leaf) = Inr (- 1)"
    using wf nf by (simp add: Find_top)
  show ?thesis
    using N by (simp add: Add_def f split_path_top [OF wf] fs strncpy_File_def)
qed

lemma Add_top_full:
  assumes wf: "CHR ''/'' \<notin> set leaf" "NUL \<notin> set leaf" "length leaf \<le> 9"
    and fs: "free_slot (length tbl) tbl 0 = Inr None"
  shows "Add cfg st tbl (CHR ''/'' # leaf) newSector inType = Inr (False, tbl, st)"
proof -
  have f: "\<exists>r. Find cfg st tbl (CHR ''/'' # leaf) = Inr r"
    using wf by (simp add: Find_top split: option.splits)
  then obtain r where r: "Find cfg st tbl (CHR ''/'' # leaf) = Inr r" ..
  show ?thesis
    by (simp add: Add_def r split_path_top [OF wf] fs)
qed

lemma Add_top_success:
  assumes sp: "split_path nm = Inr ([], File)"
    and a: "Add cfg st tbl nm newSector inType = Inr (True, tbl', st')"
  shows "\<exists>i < length tbl. \<not> inUse (tbl ! i) \<and> (\<forall>k < i. inUse (tbl ! k))
           \<and> tbl' = tbl[i := \<lparr>inUse = True,
                                name = strncpy (name (tbl ! i)) File (FileNameMaxLen cfg),
                                sector = newSector, type = inType\<rparr>]
           \<and> st' = st"
proof -
  from a obtain i nm' where
    fs: "free_slot (length tbl) tbl 0 = Inr (Some i)"
    and cp: "strncpy_File cfg (name (tbl ! i)) File = Inr nm'"
    and r: "tbl' = tbl[i := \<lparr>inUse = True, name = nm', sector = newSector, type = inType\<rparr>]" "st' = st"
    by (auto simp: Add_def sp split: sum.splits if_splits option.splits)
  from free_slot_Some [OF fs] strncpy_File_Inr [OF cp] r show ?thesis by auto
qed

lemma Add_nested:
  assumes "split_path nm = Inr (Path, File)" "Path \<noteq> []"
    and "Add cfg st tbl nm newSector inType = Inr (ok, tbl', st')"
  shows "tbl' = tbl \<and>
         (if ok then
            \<exists>parent i nm'.
              Find_buf cfg st tbl Path (length Path < 256) = Inr parent
              \<and> OpenFile cfg parent = Inr parent
              \<and> free_slot (length tbl) (FetchFrom cfg st parent) 0 = Inr (Some i)
              \<and> strncpy_File cfg (name (FetchFrom cfg st parent ! i)) File = Inr nm'
              \<and> st' = WriteBack st parent
                         ((FetchFrom cfg st parent)[i := \<lparr>inUse = True, name = nm',
                            sector = newSector, type = inType\<rparr>])
          else st' = st)"
  using assms
  by (auto simp: Add_def Let_def split: sum.splits if_splits option.splits dest!: OpenFile_Inr)

lemma Add_nested_success:
  assumes sp: "split_path nm = Inr (Path, File)" "Path \<noteq> []"
    and a: "Add cfg st tbl nm newSector inType = Inr (True, tbl', st')"
  shows "\<exists>parent i. Find_buf cfg st tbl Path (length Path < 256) = Inr parent
           \<and> i < length tbl \<and> i < NumDirEntries cfg
           \<and> \<not> inUse (FetchFrom cfg st parent ! i)
           \<and> (\<forall>k < i. inUse (FetchFrom cfg st parent ! k))
           \<and> tbl' = tbl
           \<and> st' = WriteBack st parent
                  ((FetchFrom cfg st parent)
                     [i := \<lparr>inUse = True,
                             name = strncpy (name (FetchFrom cfg st parent ! i)) File
                                      (FileNameMaxLen cfg),
                             sector = newSector, type = inType\<rparr>])"
proof -
  from Add_nested [OF sp a] obtain parent i nm' where
    p: "Find_buf cfg st tbl Path (length Path < 256) = Inr parent"
    and fs: "free_slot (length tbl) (FetchFrom cfg st parent) 0 = Inr (Some i)"
    and cp: "strncpy_File cfg (name (FetchFrom cfg st parent ! i)) File = Inr nm'"
    and r: "tbl' = tbl"
      "st' = WriteBack st parent
               ((FetchFrom cfg st parent)[i := \<lparr>inUse = True, name = nm',
                                                 sector = newSector, type = inType\<rparr>])"
    by auto
  from free_slot_Some [OF fs] strncpy_File_Inr [OF cp] p r show ?thesis
    by (auto simp: length_FetchFrom)
qed

lemma Add_nested_full:
  assumes sp: "split_path nm = Inr (Path, File)" "Path \<noteq> []"
    and f: "Find cfg st tbl nm = Inr found"
    and p: "Find_buf cfg st tbl Path (length Path < 256) = Inr parent"
    and o: "0 \<le> parent" "parent < int (NumSectors cfg)"
    and l: "length tbl \<le> NumDirEntries cfg"
    and full: "\<forall>e \<in> set (FetchFrom cfg st parent). inUse e"
  shows "Add cfg st tbl nm newSector inType = Inr (False, tbl, st)"
proof -
  have "free_slot (length tbl) (FetchFrom cfg st parent) 0 = Inr None"
    using l full by (intro free_slot_all_used) (simp_all add: length_FetchFrom)
  then show ?thesis
    using sp f p o by (simp add: Add_def OpenFile_def)
qed

text \<open>
  Requests for leaves that differ within their first \<open>FileNameMaxLen\<close> bytes and match
  no entry in use all succeed as long as the table has room; each takes one free slot.
\<close>

lemma Add_seq_fills:
  assumes N: "FileNameMaxLen cfg \<le> 9"
  shows "\<lbrakk>\<forall>r \<in> set reqs. CHR ''/'' \<notin> set (fst r) \<and> NUL \<notin> set (fst r) \<and> length (fst r) \<le> 9;
          distinct (map (\<lambda>r. take (FileNameMaxLen cfg) (fst r)) reqs);
          \<forall>e \<in> set tbl. \<forall>r \<in> set reqs.
             \<not> (inUse e \<and> strncmp (name e) (fst r) (FileNameMaxLen cfg) = 0);
          length reqs \<le> free_slots tbl\<rbrakk>
         \<Longrightarrow> \<exists>tbl'. Add_seq cfg st tbl (map top_level reqs)
                        = Inr (replicate (length reqs) True, tbl', st)
                    \<and> length tbl' = length tbl
                    \<and> free_slots tbl' + length reqs = free_slots tbl"
proof (induction reqs arbitrary: tbl)
  case Nil
  show ?case by simp
next
  case (Cons r rs)
  obtain leaf newSector inType where r: "r = (leaf, newSector, inType)"
    by (cases r) auto
  from Cons.prems(1) r have wf: "CHR ''/'' \<notin> set leaf" "NUL \<notin> set leaf" "length leaf \<le> 9"
    by simp_all
  from Cons.prems(3) r have nf: "FindIndex cfg tbl leaf = None"
    by (simp add: FindIndex_None_iff)
  from Cons.prems(4) have "free_slots tbl \<noteq> 0" by simp
  then have "\<not> (\<forall>e \<in> set tbl. inUse e)" by (simp add: free_slots_zero)
  from free_slot_finds [OF this] obtain j where j: "free_slot (length tbl) tbl 0 = Inr (Some j)" ..
  define new where "new = \<lparr>inUse = True, name = strncpy (name (tbl ! j)) leaf (FileNameMaxLen cfg),
                            sector = newSector, type = inType\<rparr>"
  define tbl1 where "tbl1 = tbl[j := new]"
  have a: "Add cfg st tbl (CHR ''/'' # leaf) newSector inType = Inr (True, tbl1, st)"
    unfolding tbl1_def new_def by (rule Add_top_insert [OF wf N nf j])
  from free_slot_Some [OF j] have jj: "j < length tbl" "\<not> inUse (tbl ! j)" by simp_all
  have fs1: "Suc (free_slots tbl1) = free_slots tbl"
    unfolding tbl1_def using jj by (intro free_slots_update) (simp_all add: new_def)
  have p1: "\<forall>r \<in> set rs. CHR ''/'' \<notin> set (fst r) \<and> NUL \<notin> set (fst r) \<and> length (fst r) \<le> 9"
    using Cons.prems(1) by simp
  have p2: "distinct (map (\<lambda>r. take (FileNameMaxLen cfg) (fst r)) rs)"
    using Cons.prems(2) by simp
  have p3: "\<forall>e \<in> set tbl1. \<forall>r' \<in> set rs.
             \<not> (inUse e \<and> strncmp (name e) (fst r') (FileNameMaxLen cfg) = 0)"
  proof (intro ballI)
    fix e r' assume e: "e \<in> set tbl1" and r': "r' \<in> set rs"
    from e have "e = new \<or> e \<in> set tbl"
      unfolding tbl1_def using set_update_subset_insert [of tbl j new] by auto
    then show "\<not> (inUse e \<and> strncmp (name e) (fst r') (FileNameMaxLen cfg) = 0)"
    proof
      assume "e \<in> set tbl"
      with Cons.prems(3) r' show ?thesis by simp
    next
      assume en: "e = new"
      from p1 r' have nul: "NUL \<notin> set (fst r')" by simp
      from Cons.prems(2) r r' have "take (FileNameMaxLen cfg) leaf \<noteq> take (FileNameMaxLen cfg) (fst r')"
        by auto
      then have "strncmp (name new) (fst r') (FileNameMaxLen cfg) \<noteq> 0"
        by (simp add: new_def strncmp_zero_iff strncpy_prefix [OF wf(2)] cstr_id [OF nul])
      with en show ?thesis by simp
    qed
  qed
  have p4: "length rs \<le> free_slots tbl1"
    using Cons.prems(4) fs1 by simp
  from Cons.IH [OF p1 p2 p3 p4] obtain tbl' where
    t: "Add_seq cfg st tbl1 (map top_level rs) = Inr (replicate (length rs) True, tbl', st)"
       "length tbl' = length tbl1" "free_slots tbl' + length rs = free_slots tbl1"
    by blast
  have "Add_seq cfg st tbl (map top_level (r # rs)) = Inr (replicate (length (r # rs)) True, tbl', st)"
    by (simp add: r top_level_def a t(1))
  moreover have "length tbl' = length tbl" using t(2) by (simp add: tbl1_def)
  moreover have "free_slots tbl' + length (r # rs) = free_slots tbl" using t(3) fs1 by simp
  ultimately show ?case by blast
qed

text \<open>
  C6: for a table of capacity \<open>M\<close>, a successful Add puts the new entry at the lowest
  index whose \<open>in_use\<close> flag is false, with \<open>in_use\<close> set, the leaf copied with
  \<^verbatim>\<open>strncpy\<close> (bounded by NAME_MAX, padded with NULs), the sector and the type; Add
  returns failure when no slot is free; a directory of capacity \<open>M\<close> accepts \<open>M\<close>
  distinct Adds in any order and refuses the next one. The first and third conjunct are
  a path without parent part, the second and fourth a path with a parent, where the
  table is the parent directory loaded from disk; the last runs any list of \<open>M\<close>
  requests on an empty directory. The leaves of the requests are names \<^verbatim>\<open>File\<close>
  holds: at most 9 bytes, without slash, and distinct means distinct within NAME_MAX
  bytes.
\<close>

theorem Add_first_fit_capacity:
  assumes N: "FileNameMaxLen cfg \<le> 9"
    and wf: "CHR ''/'' \<notin> set leaf" "NUL \<notin> set leaf" "length leaf \<le> 9"
  shows
    "(split_path nm1 = Inr ([], File1)
        \<and> Add cfg st1 tbl1 nm1 newSector inType = Inr (True, tbl1', st1') \<longrightarrow>
        (\<exists>i < length tbl1. \<not> inUse (tbl1 ! i) \<and> (\<forall>k < i. inUse (tbl1 ! k))
           \<and> tbl1' = tbl1[i := \<lparr>inUse = True,
                                  name = strncpy (name (tbl1 ! i)) File1 (FileNameMaxLen cfg),
                                  sector = newSector, type = inType\<rparr>]
           \<and> st1' = st1))
     \<and> (split_path nm = Inr (Path, File) \<and> Path \<noteq> []
          \<and> Add cfg st2 tbl2 nm newSector inType = Inr (True, tbl2', st2') \<longrightarrow>
        (\<exists>parent i. Find_buf cfg st2 tbl2 Path (length Path < 256) = Inr parent
           \<and> i < length tbl2 \<and> i < NumDirEntries cfg
           \<and> \<not> inUse (FetchFrom cfg st2 parent ! i)
           \<and> (\<forall>k < i. inUse (FetchFrom cfg st2 parent ! k))
           \<and> tbl2' = tbl2
           \<and> st2' = WriteBack st2 parent
                  ((FetchFrom cfg st2 parent)
                     [i := \<lparr>inUse = True,
                             name = strncpy (name (FetchFrom cfg st2 parent ! i)) File
                                      (FileNameMaxLen cfg),
                             sector = newSector, type = inType\<rparr>])))
     \<and> ((\<forall>e \<in> set full. inUse e) \<longrightarrow>
          Add cfg st full (CHR ''/'' # leaf) newSector inType = Inr (False, full, st))
     \<and> (split_path nm = Inr (Path, File) \<and> Path \<noteq> []
          \<and> Find cfg st3 tbl3 nm = Inr found
          \<and> Find_buf cfg st3 tbl3 Path (length Path < 256) = Inr parent3
          \<and> 0 \<le> parent3 \<and> parent3 < int (NumSectors cfg)
          \<and> length tbl3 \<le> NumDirEntries cfg
          \<and> (\<forall>e \<in> set (FetchFrom cfg st3 parent3). inUse e) \<longrightarrow>
          Add cfg st3 tbl3 nm newSector inType = Inr (False, tbl3, st3))
     \<and> ((\<forall>r \<in> set reqs. CHR ''/'' \<notin> set (fst r) \<and> NUL \<notin> set (fst r) \<and> length (fst r) \<le> 9)
          \<and> distinct (map (\<lambda>r. take (FileNameMaxLen cfg) (fst r)) reqs)
          \<and> length reqs = M \<longrightarrow>
        (\<exists>filled. Add_seq cfg st (Directory_init cfg M) (map top_level reqs)
                      = Inr (replicate M True, filled, st)
                  \<and> length filled = M
                  \<and> Add cfg st filled (CHR ''/'' # leaf) newSector inType = Inr (False, filled, st)))"
proof (intro conjI impI)
  assume "split_path nm1 = Inr ([], File1)
          \<and> Add cfg st1 tbl1 nm1 newSector inType = Inr (True, tbl1', st1')"
  then have h: "split_path nm1 = Inr ([], File1)"
    "Add cfg st1 tbl1 nm1 newSector inType = Inr (True, tbl1', st1')"
    by blast+
  from Add_top_success [OF h]
  show "\<exists>i < length tbl1. \<not> inUse (tbl1 ! i) \<and> (\<forall>k < i. inUse (tbl1 ! k))
           \<and> tbl1' = tbl1[i := \<lparr>inUse = True,
                                  name = strncpy (name (tbl1 ! i)) File1 (FileNameMaxLen cfg),
                                  sector = newSector, type = inType\<rparr>]
           \<and> st1' = st1" .
next
  assume "split_path nm = Inr (Path, File) \<and> Path \<noteq> []
          \<and> Add cfg st2 tbl2 nm newSector inType = Inr (True, tbl2', st2')"
  then have h: "split_path nm = Inr (Path, File)" "Path \<noteq> []"
    "Add cfg st2 tbl2 nm newSector inType = Inr (True, tbl2', st2')"
    by blast+
  from Add_nested_success [OF h]
  show "\<exists>parent i. Find_buf cfg st2 tbl2 Path (length Path < 256) = Inr parent
           \<and> i < length tbl2 \<and> i < NumDirEntries cfg
           \<and> \<not> inUse (FetchFrom cfg st2 parent ! i)
           \<and> (\<forall>k < i. inUse (FetchFrom cfg st2 parent ! k))
           \<and> tbl2' = tbl2
           \<and> st2' = WriteBack st2 parent
                  ((FetchFrom cfg st2 parent)
                     [i := \<lparr>inUse = True,
                             name = strncpy (name (FetchFrom cfg st2 parent ! i)) File
                                      (FileNameMaxLen cfg),
                             sector = newSector, type = inType\<rparr>])" .
next
  assume "\<forall>e \<in> set full. inUse e"
  from Add_top_full [OF wf free_slot_full [OF this]]
  show "Add cfg st full (CHR ''/'' # leaf) newSector inType = Inr (False, full, st)" .
next
  assume "split_path nm = Inr (Path, File) \<and> Path \<noteq> []
          \<and> Find cfg st3 tbl3 nm = Inr found
          \<and> Find_buf cfg st3 tbl3 Path (length Path < 256) = Inr parent3
          \<and> 0 \<le> parent3 \<and> parent3 < int (NumSectors cfg)
          \<and> length tbl3 \<le> NumDirEntries cfg
          \<and> (\<forall>e \<in> set (FetchFrom cfg st3 parent3). inUse e)"
  then have h: "split_path nm = Inr (Path, File)" "Path \<noteq> []"
    "Find cfg st3 tbl3 nm = Inr found"
    "Find_buf cfg st3 tbl3 Path (length Path < 256) = Inr parent3"
    "0 \<le> parent3" "parent3 < int (NumSectors cfg)"
    "length tbl3 \<le> NumDirEntries cfg"
    "\<forall>e \<in> set (FetchFrom cfg st3 parent3). inUse e"
    by blast+
  from Add_nested_full [OF h]
  show "Add cfg st3 tbl3 nm newSector inType = Inr (False, tbl3, st3)" .
next
  assume "(\<forall>r \<in> set reqs. CHR ''/'' \<notin> set (fst r) \<and> NUL \<notin> set (fst r) \<and> length (fst r) \<le> 9)
          \<and> distinct (map (\<lambda>r. take (FileNameMaxLen cfg) (fst r)) reqs)
          \<and> length reqs = M"
  then have h: "\<forall>r \<in> set reqs. CHR ''/'' \<notin> set (fst r) \<and> NUL \<notin> set (fst r) \<and> length (fst r) \<le> 9"
    "distinct (map (\<lambda>r. take (FileNameMaxLen cfg) (fst r)) reqs)" and M: "length reqs = M"
    by blast+
  have fresh: "\<forall>e \<in> set (Directory_init cfg M). \<forall>r \<in> set reqs.
                 \<not> (inUse e \<and> strncmp (name e) (fst r) (FileNameMaxLen cfg) = 0)"
    by (simp add: Directory_init_def)
  have room: "length reqs \<le> free_slots (Directory_init cfg M)"
    by (simp add: free_slots_init M)
  from Add_seq_fills [OF N h fresh room, of st] obtain filled where
    f: "Add_seq cfg st (Directory_init cfg M) (map top_level reqs)
          = Inr (replicate (length reqs) True, filled, st)"
       "length filled = length (Directory_init cfg M)"
       "free_slots filled + length reqs = free_slots (Directory_init cfg M)"
    by blast
  from f(3) have "free_slots filled = 0" by (simp add: free_slots_init M)
  then have "\<forall>e \<in> set filled. inUse e" by (simp add: free_slots_zero)
  from Add_top_full [OF wf free_slot_full [OF this]]
  have "Add cfg st filled (CHR ''/'' # leaf) newSector inType = Inr (False, filled, st)" .
  with f M show "\<exists>filled. Add_seq cfg st (Directory_init cfg M) (map top_level reqs)
                      = Inr (replicate M True, filled, st)
                  \<and> length filled = M
                  \<and> Add cfg st filled (CHR ''/'' # leaf) newSector inType = Inr (False, filled, st)"
    by (auto simp: length_Directory_init)
qed

text \<open>
  C6 on directories of two entries: \<open>/c\<close> goes to slot 0 of a table whose slot 1 is
  taken; \<open>/d/c\<close> goes to slot 1 of the directory at sector 50; both are refused when the
  two slots are taken; \<open>/a\<close> and \<open>/b\<close> fill an empty directory, and \<open>/c\<close> is then
  refused.
\<close>

theorem Add_first_fit_capacity_witness:
  "Add nachos2 no_files pair_b ''/c'' 12 (CHR ''F'') = Inr (True, pair_cb, no_files)
   \<and> (\<exists>i. i < length pair_b \<and> \<not> inUse (pair_b ! i)
         \<and> pair_cb = pair_b[i := \<lparr>inUse = True,
                                   name = strncpy (name (pair_b ! i)) ''c'' (FileNameMaxLen nachos2),
                                   sector = 12, type = CHR ''F''\<rparr>])
   \<and> Add nachos2 files_d_a pair_d ''/d/c'' 12 (CHR ''F'') = Inr (True, pair_d, files_d_ac)
   \<and> (\<exists>parent i. Find_buf nachos2 files_d_a pair_d ''/d'' (length ''/d'' < 256) = Inr parent
         \<and> i < length pair_d \<and> i < NumDirEntries nachos2
         \<and> \<not> inUse (FetchFrom nachos2 files_d_a parent ! i)
         \<and> files_d_ac = WriteBack files_d_a parent
              ((FetchFrom nachos2 files_d_a parent)
                 [i := \<lparr>inUse = True,
                         name = strncpy (name (FetchFrom nachos2 files_d_a parent ! i)) ''c''
                                  (FileNameMaxLen nachos2),
                         sector = 12, type = CHR ''F''\<rparr>]))
   \<and> Add nachos2 no_files pair_ab ''/c'' 12 (CHR ''F'') = Inr (False, pair_ab, no_files)
   \<and> Add nachos2 files_d_ab pair_d ''/d/c'' 12 (CHR ''F'') = Inr (False, pair_d, files_d_ab)
   \<and> (\<exists>filled. Add_seq nachos2 no_files (Directory_init nachos2 2)
                    (map top_level [(''a'', 10, CHR ''F''), (''b'', 11, CHR ''F'')])
                  = Inr (replicate 2 True, filled, no_files)
               \<and> length filled = 2
               \<and> Add nachos2 no_files filled ''/c'' 12 (CHR ''F'') = Inr (False, filled, no_files))"
proof -
  have N: "FileNameMaxLen nachos2 \<le> 9" by code_simp
  have wf: "CHR ''/'' \<notin> set ''c''" "NUL \<notin> set ''c''" "length ''c'' \<le> 9"
    by (simp_all add: NUL_def)
  have sc: "split_path ''/c'' = Inr ([], ''c'')" by code_simp
  have a1: "Add nachos2 no_files pair_b ''/c'' 12 (CHR ''F'') = Inr (True, pair_cb, no_files)"
  proof -
    have f: "Find nachos2 no_files pair_b ''/c'' = Inr (- 1)" by code_simp
    have l: "length pair_b = 2" by code_simp
    have fs: "free_slot 2 pair_b 0 = Inr (Some 0)" by code_simp
    have cp: "strncpy_File nachos2 (name (pair_b ! 0)) ''c'' = Inr (name (entry ''c'' 12 (CHR ''F'')))"
      by code_simp
    show ?thesis
      by (simp add: Add_def f sc l fs cp) (simp add: pair_b_def pair_cb_def entry_def)
  qed
  have sp: "split_path ''/d/c'' = Inr (''/d'', ''c'')" by code_simp
  have ne: "''/d'' \<noteq> []" by simp
  have o: "OpenFile nachos2 50 = Inr 50" by code_simp
  have a2: "Add nachos2 files_d_a pair_d ''/d/c'' 12 (CHR ''F'') = Inr (True, pair_d, files_d_ac)"
  proof -
    have f: "Find nachos2 files_d_a pair_d ''/d/c'' = Inr (- 1)" by code_simp
    have p: "Find_buf nachos2 files_d_a pair_d ''/d'' True = Inr 50" by code_simp
    have t: "FetchFrom nachos2 files_d_a 50 = [entry ''a'' 10 (CHR ''F''), free_entry]" by code_simp
    have l: "length pair_d = 2" by code_simp
    have fs: "free_slot 2 [entry ''a'' 10 (CHR ''F''), free_entry] 0 = Inr (Some 1)" by code_simp
    have cp: "strncpy_File nachos2 (name free_entry) ''c'' = Inr (name (entry ''c'' 12 (CHR ''F'')))"
      by code_simp
    show ?thesis
      by (simp add: Add_def f sp p o t l fs cp)
         (simp add: files_d_a_def files_d_ac_def entry_def WriteBack_def)
  qed
  have full: "\<forall>e \<in> set pair_ab. inUse e" by (simp add: pair_ab_def entry_def)
  have f3: "Find nachos2 files_d_ab pair_d ''/d/c'' = Inr (- 1)" by code_simp
  have p3: "Find_buf nachos2 files_d_ab pair_d ''/d'' (length ''/d'' < 256) = Inr 50" by code_simp
  have r3: "(0::int) \<le> 50" "50 < int (NumSectors nachos2)" by (simp_all add: nachos2_def nachos_def)
  have l3: "length pair_d \<le> NumDirEntries nachos2" by code_simp
  have t3: "FetchFrom nachos2 files_d_ab 50 = pair_ab" by code_simp
  have full3: "\<forall>e \<in> set (FetchFrom nachos2 files_d_ab 50). inUse e"
    unfolding t3 by (rule full)
  have q1: "\<forall>r \<in> set [(''a'', 10::int, CHR ''F''), (''b'', 11, CHR ''F'')].
         CHR ''/'' \<notin> set (fst r) \<and> NUL \<notin> set (fst r) \<and> length (fst r) \<le> 9"
    by (simp add: NUL_def)
  have q2: "distinct (map (\<lambda>r. take (FileNameMaxLen nachos2) (fst r))
                 [(''a'', 10::int, CHR ''F''), (''b'', 11, CHR ''F'')])"
    by (simp add: nachos2_def nachos_def)
  have q3: "length [(''a'', 10::int, CHR ''F''), (''b'', 11, CHR ''F'')] = 2" by simp
  note T = Add_first_fit_capacity [OF N wf, where newSector = 12 and inType = "CHR ''F''"
      and st = no_files and ?nm1.0 = "''/c''" and ?File1.0 = "''c''"
      and ?st1.0 = no_files and ?tbl1.0 = pair_b and tbl1' = pair_cb and st1' = no_files
      and nm = "''/d/c''" and Path = "''/d''" and File = "''c''"
      and ?st2.0 = files_d_a and ?tbl2.0 = pair_d and tbl2' = pair_d and st2' = files_d_ac
      and full = pair_ab
      and ?st3.0 = files_d_ab and ?tbl3.0 = pair_d and found = "- 1" and ?parent3.0 = 50
      and reqs = "[(''a'', 10, CHR ''F''), (''b'', 11, CHR ''F'')]" and M = 2]
  from T sc a1 have c1: "\<exists>i. i < length pair_b \<and> \<not> inUse (pair_b ! i)
         \<and> pair_cb = pair_b[i := \<lparr>inUse = True,
                                   name = strncpy (name (pair_b ! i)) ''c'' (FileNameMaxLen nachos2),
                                   sector = 12, type = CHR ''F''\<rparr>]"
    by blast
  from T sp ne a2 have c2: "\<exists>parent i. Find_buf nachos2 files_d_a pair_d ''/d'' (length ''/d'' < 256) = Inr parent
         \<and> i < length pair_d \<and> i < NumDirEntries nachos2
         \<and> \<not> inUse (FetchFrom nachos2 files_d_a parent ! i)
         \<and> files_d_ac = WriteBack files_d_a parent
              ((FetchFrom nachos2 files_d_a parent)
                 [i := \<lparr>inUse = True,
                         name = strncpy (name (FetchFrom nachos2 files_d_a parent ! i)) ''c''
                                  (FileNameMaxLen nachos2),
                         sector = 12, type = CHR ''F''\<rparr>])"
    by blast
  from T full have c3: "Add nachos2 no_files pair_ab ''/c'' 12 (CHR ''F'') = Inr (False, pair_ab, no_files)"
    by blast
  from T sp ne f3 p3 r3 l3 full3
  have c4: "Add nachos2 files_d_ab pair_d ''/d/c'' 12 (CHR ''F'') = Inr (False, pair_d, files_d_ab)"
    by blast
  from T q1 q2 q3
  have c5: "\<exists>filled. Add_seq nachos2 no_files (Directory_init nachos2 2)
                    (map top_level [(''a'', 10, CHR ''F''), (''b'', 11, CHR ''F'')])
                  = Inr (replicate 2 True, filled, no_files)
               \<and> length filled = 2
               \<and> Add nachos2 no_files filled ''/c'' 12 (CHR ''F'') = Inr (False, filled, no_files)"
    by blast
  from a1 c1 a2 c2 c3 c4 c5 show ?thesis by blast
qed

section \<open>Directory: Remove\<close>

lemma Remove_nested:
  assumes "split_path nm = Inr (Path, File)" "Path \<noteq> []"
    and "Remove cfg st tbl nm = Inr (ok, tbl', st')"
  shows "tbl' = tbl \<and>
         (if ok then
            \<exists>parent i.
              Find_buf cfg st tbl Path (length Path < 256) = Inr parent
              \<and> OpenFile cfg parent = Inr parent
              \<and> FindIndex_File cfg (FetchFrom cfg st parent) File = Inr (Some i)
              \<and> st' = WriteBack st parent
                         ((FetchFrom cfg st parent)[i := (FetchFrom cfg st parent ! i)\<lparr>inUse := False\<rparr>])
          else st' = st)"
  using assms
  by (auto simp: Remove_def Let_def split: sum.splits if_splits option.splits dest!: OpenFile_Inr)

text \<open>
  C1: whenever Find resolves \<open>p\<close>, Remove returns success, clears the \<open>in_use\<close> flag
  of the leaf, and Find no longer resolves \<open>p\<close>; in particular for a path \<open>/leaf\<close>. On
  the directory that \<^verbatim>\<open>Add\<close> made of \<open>/a\<close>, \<^verbatim>\<open>Find\<close> resolves \<open>/a\<close> to sector 17
  and \<^verbatim>\<open>Remove\<close> returns FALSE and leaves the table as it is: with an empty
  \<^verbatim>\<open>Path\<close> it looks up the whole path \<open>/a\<close>, slash included, where the branch for a
  path with a parent looks up the leaf.
\<close>

theorem Remove_top_level_fails:
  "Add nachos no_files (Directory_init nachos 10) ''/a'' 17 (CHR ''F'') = Inr (True, dir_a, no_files)
   \<and> Find nachos no_files dir_a ''/a'' = Inr 17
   \<and> Remove nachos no_files dir_a ''/a'' = Inr (False, dir_a, no_files)"
proof -
  have f0: "Find nachos no_files (Directory_init nachos 10) ''/a'' = Inr (- 1)" by code_simp
  have s: "split_path ''/a'' = Inr ([], ''a'')" by code_simp
  have fs: "free_slot 10 (Directory_init nachos 10) 0 = Inr (Some 0)" by code_simp
  have cp: "strncpy_File nachos (name (Directory_init nachos 10 ! 0)) ''a'' = Inr (name (entry ''a'' 17 (CHR ''F'')))"
    by code_simp
  have l: "length (Directory_init nachos 10) = 10" by (simp add: Directory_init_def)
  have a: "Add nachos no_files (Directory_init nachos 10) ''/a'' 17 (CHR ''F'') = Inr (True, dir_a, no_files)"
    by (simp add: Add_def f0 s fs cp l dir_a_def entry_def)
  have f1: "Find nachos no_files dir_a ''/a'' = Inr 17" by code_simp
  have fi: "FindIndex nachos dir_a ''/a'' = None" by code_simp
  have r: "Remove nachos no_files dir_a ''/a'' = Inr (False, dir_a, no_files)"
    by (simp add: Remove_def f1 s fi)
  from a f1 r show ?thesis by simp
qed

text \<open>
  C10: for an Add or a Remove on a path whose parent part is not empty, the table of the
  directory the operation was called on is unchanged; on success the store differs by
  one write, the loaded parent directory with one entry changed, and on failure the
  store is unchanged too. The parent part is not empty when the last slash is not the
  first byte.
\<close>

theorem nested_path_keeps_table:
  assumes "last_slash (cstr nm) (strlen nm) = Some slash" "0 < slash"
  shows "(Add cfg st tbl nm newSector inType = Inr (ok, tbl', st') \<longrightarrow>
            tbl' = tbl \<and>
            (if ok then
               \<exists>parent i.
                 Find_buf cfg st tbl (take slash (cstr nm)) (slash < 256) = Inr parent
                 \<and> st' = WriteBack st parent
                      ((FetchFrom cfg st parent)
                         [i := \<lparr>inUse = True,
                                 name = strncpy (name (FetchFrom cfg st parent ! i))
                                          (drop (Suc slash) (cstr nm)) (FileNameMaxLen cfg),
                                 sector = newSector, type = inType\<rparr>])
             else st' = st))
       \<and> (Remove cfg st tbl nm = Inr (ok2, tbl2, st2) \<longrightarrow>
            tbl2 = tbl \<and>
            (if ok2 then
               \<exists>parent i.
                 Find_buf cfg st tbl (take slash (cstr nm)) (slash < 256) = Inr parent
                 \<and> st2 = WriteBack st parent
                      ((FetchFrom cfg st parent)
                         [i := (FetchFrom cfg st parent ! i)\<lparr>inUse := False\<rparr>])
             else st2 = st))"
proof (rule conjI; rule impI)
  assume a: "Add cfg st tbl nm newSector inType = Inr (ok, tbl', st')"
  show "tbl' = tbl \<and>
        (if ok then
           \<exists>parent i.
             Find_buf cfg st tbl (take slash (cstr nm)) (slash < 256) = Inr parent
             \<and> st' = WriteBack st parent
                  ((FetchFrom cfg st parent)
                     [i := \<lparr>inUse = True,
                             name = strncpy (name (FetchFrom cfg st parent ! i))
                                      (drop (Suc slash) (cstr nm)) (FileNameMaxLen cfg),
                             sector = newSector, type = inType\<rparr>])
         else st' = st)"
  proof (cases "Find cfg st tbl nm = Inr (- 1)")
    case False
    with a show ?thesis by (auto simp: Add_def split: sum.splits if_splits)
  next
    case True
    with a obtain Path File where sp: "split_path nm = Inr (Path, File)"
      by (auto simp: Add_def split: sum.splits if_splits)
    note pf = split_path_interior [OF assms sp]
    from pf have ne: "Path \<noteq> []" by blast
    from Add_nested [OF sp ne a] pf show ?thesis
      by (auto split: if_splits dest!: strncpy_File_Inr)
  qed
next
  assume r: "Remove cfg st tbl nm = Inr (ok2, tbl2, st2)"
  show "tbl2 = tbl \<and>
        (if ok2 then
           \<exists>parent i.
             Find_buf cfg st tbl (take slash (cstr nm)) (slash < 256) = Inr parent
             \<and> st2 = WriteBack st parent
                  ((FetchFrom cfg st parent)
                     [i := (FetchFrom cfg st parent ! i)\<lparr>inUse := False\<rparr>])
         else st2 = st)"
  proof (cases "Find cfg st tbl nm = Inr (- 1)")
    case True
    with r show ?thesis by (simp add: Remove_def)
  next
    case False
    with r obtain Path File where sp: "split_path nm = Inr (Path, File)"
      by (auto simp: Remove_def split: sum.splits if_splits)
    note pf = split_path_interior [OF assms sp]
    from pf have ne: "Path \<noteq> []" by blast
    from Remove_nested [OF sp ne r] pf show ?thesis
      by (auto split: if_splits)
  qed
qed

text \<open>
  C10 on \<open>/d/x\<close>, added to and removed from the directory at sector 50.
\<close>

theorem nested_path_keeps_table_witness:
  "last_slash (cstr ''/d/x'') (strlen ''/d/x'') = Some 2 \<and> (0::nat) < 2
   \<and> Add nachos no_files dir_d ''/d/x'' 77 (CHR ''F'') = Inr (True, dir_d, files_dx)
   \<and> (\<exists>parent i.
         Find_buf nachos no_files dir_d (take 2 (cstr ''/d/x'')) (2 < (256::nat)) = Inr parent
         \<and> files_dx = WriteBack no_files parent
              ((FetchFrom nachos no_files parent)
                 [i := \<lparr>inUse = True,
                         name = strncpy (name (FetchFrom nachos no_files parent ! i))
                                  (drop (Suc 2) (cstr ''/d/x'')) (FileNameMaxLen nachos),
                         sector = 77, type = CHR ''F''\<rparr>]))
   \<and> Remove nachos files_dx dir_d ''/d/x''
       = Inr (True, dir_d, WriteBack files_dx 50 (dir_x[0 := (dir_x ! 0)\<lparr>inUse := False\<rparr>]))
   \<and> (\<exists>parent i.
         Find_buf nachos files_dx dir_d (take 2 (cstr ''/d/x'')) (2 < (256::nat)) = Inr parent
         \<and> WriteBack files_dx 50 (dir_x[0 := (dir_x ! 0)\<lparr>inUse := False\<rparr>])
             = WriteBack files_dx parent
                 ((FetchFrom nachos files_dx parent)
                    [i := (FetchFrom nachos files_dx parent ! i)\<lparr>inUse := False\<rparr>]))"
proof -
  have h1: "last_slash (cstr ''/d/x'') (strlen ''/d/x'') = Some 2" by code_simp
  have h2: "(0::nat) < 2" by simp
  have s: "split_path ''/d/x'' = Inr (''/d'', ''x'')" by code_simp
  have o: "OpenFile nachos 50 = Inr 50" by code_simp
  have a: "Add nachos no_files dir_d ''/d/x'' 77 (CHR ''F'') = Inr (True, dir_d, files_dx)"
  proof -
    have f: "Find nachos no_files dir_d ''/d/x'' = Inr (- 1)" by code_simp
    have p: "Find_buf nachos no_files dir_d ''/d'' True = Inr 50" by code_simp
    have t: "FetchFrom nachos no_files 50 = Directory_init nachos 10" by code_simp
    have l: "length dir_d = 10" by code_simp
    have fs: "free_slot 10 (Directory_init nachos 10) 0 = Inr (Some 0)" by code_simp
    have cp: "strncpy_File nachos (name (Directory_init nachos 10 ! 0)) ''x''
                = Inr (name (entry ''x'' 77 (CHR ''F'')))"
      by code_simp
    show ?thesis
      by (simp add: Add_def f s p o t l fs cp files_dx_def dir_x_def entry_def WriteBack_def)
  qed
  have r: "Remove nachos files_dx dir_d ''/d/x''
       = Inr (True, dir_d, WriteBack files_dx 50 (dir_x[0 := (dir_x ! 0)\<lparr>inUse := False\<rparr>]))"
  proof -
    have f: "Find nachos files_dx dir_d ''/d/x'' = Inr 77" by code_simp
    have p: "Find_buf nachos files_dx dir_d ''/d'' True = Inr 50" by code_simp
    have t: "FetchFrom nachos files_dx 50 = dir_x" by code_simp
    have i: "FindIndex_File nachos dir_x ''x'' = Inr (Some 0)" by code_simp
    show ?thesis by (simp add: Remove_def f s p o t i)
  qed
  from nested_path_keeps_table [OF h1 h2, of nachos no_files dir_d 77 "CHR ''F''" True dir_d files_dx
      False dir_d no_files] a
  have c1: "\<exists>parent i.
         Find_buf nachos no_files dir_d (take 2 (cstr ''/d/x'')) (2 < (256::nat)) = Inr parent
         \<and> files_dx = WriteBack no_files parent
              ((FetchFrom nachos no_files parent)
                 [i := \<lparr>inUse = True,
                         name = strncpy (name (FetchFrom nachos no_files parent ! i))
                                  (drop (Suc 2) (cstr ''/d/x'')) (FileNameMaxLen nachos),
                         sector = 77, type = CHR ''F''\<rparr>])"
    by simp
  from nested_path_keeps_table [OF h1 h2, of nachos files_dx dir_d 77 "CHR ''F''" False dir_d files_dx
      True dir_d "WriteBack files_dx 50 (dir_x[0 := (dir_x ! 0)\<lparr>inUse := False\<rparr>])"] r
  have c2: "\<exists>parent i.
         Find_buf nachos files_dx dir_d (take 2 (cstr ''/d/x'')) (2 < (256::nat)) = Inr parent
         \<and> WriteBack files_dx 50 (dir_x[0 := (dir_x ! 0)\<lparr>inUse := False\<rparr>])
             = WriteBack files_dx parent
                 ((FetchFrom nachos files_dx parent)
                    [i := (FetchFrom nachos files_dx parent ! i)\<lparr>inUse := False\<rparr>])"
    by simp
  from h1 h2 a c1 r c2 show ?thesis by blast
qed

section \<open>Directory: names longer than the buffers\<close>

lemma free_slot_first:
  "0 < n \<Longrightarrow> tbl \<noteq> [] \<Longrightarrow> \<not> inUse (tbl ! 0) \<Longrightarrow> free_slot n tbl 0 = Inr (Some 0)"
  by (cases n) simp_all

lemma FindIndex_Directory_init: "FindIndex cfg (Directory_init cfg n) nm = None"
  by (simp add: FindIndex_None_iff Directory_init_def)

text \<open>
  A leaf of ten bytes, added to an empty directory of ten entries: the copy into
  \<^verbatim>\<open>File\<close> writes past its nine bytes, whatever the constants are.
\<close>

lemma Add_ten_byte_leaf:
  "Find cfg no_files (Directory_init cfg 10) ''/abcdefghij'' = Inr (- 1)
   \<and> Add cfg no_files (Directory_init cfg 10) ''/abcdefghij'' 17 (CHR ''F'') = Inl BufferOverrun"
proof -
  have "Find cfg no_files (Directory_init cfg 10) (CHR ''/'' # ''abcdefghij'') = Inr (- 1)"
    by (subst Find_top) (simp_all add: NUL_def FindIndex_Directory_init)
  then have f0: "Find cfg no_files (Directory_init cfg 10) ''/abcdefghij'' = Inr (- 1)"
    by simp
  have s: "split_path ''/abcdefghij'' = Inl BufferOverrun" by code_simp
  from f0 show ?thesis by (simp add: Add_def s)
qed

text \<open>
  C8: an Add whose leaf is longer than NAME_MAX bytes still succeeds when a slot is free
  and stores the first NAME_MAX bytes of the leaf. \<^verbatim>\<open>Add\<close> bounds the copy into the
  entry with \<^verbatim>\<open>strncpy\<close>, but first copies the whole leaf into \<^verbatim>\<open>char File[9]\<close>:
  for the leaf \<open>abcdefghij\<close>, absent from an empty directory whose slot 0 is free, the
  tenth byte is written past the end of \<^verbatim>\<open>File\<close>.
\<close>

theorem Add_long_leaf_overruns:
  "Find cfg no_files (Directory_init cfg 10) ''/abcdefghij'' = Inr (- 1)
   \<and> free_slot 10 (Directory_init cfg 10) 0 = Inr (Some 0)
   \<and> Add cfg no_files (Directory_init cfg 10) ''/abcdefghij'' 17 (CHR ''F'') = Inl BufferOverrun"
proof -
  have "free_slot 10 (Directory_init cfg 10) 0 = Inr (Some 0)"
    by (rule free_slot_first) (simp_all add: Directory_init_def)
  with Add_ten_byte_leaf [of cfg] show ?thesis by simp
qed

text \<open>
  Two paths \<open>/n1\<close> and \<open>/n2\<close> whose names agree on their first \<open>FileNameMaxLen\<close> bytes
  are the same to \<^verbatim>\<open>FindIndex\<close> and, up to the 128 bytes \<^verbatim>\<open>localName\<close> takes, to
  \<^verbatim>\<open>Find\<close>.
\<close>

lemma Find_prefix:
  assumes "take (FileNameMaxLen cfg) n1 = take (FileNameMaxLen cfg) n2"
    and "CHR ''/'' \<notin> set n1" "NUL \<notin> set n1" "length n1 \<le> 128"
    and "CHR ''/'' \<notin> set n2" "NUL \<notin> set n2" "length n2 \<le> 128"
  shows "Find cfg st tbl (CHR ''/'' # n1) = Find cfg st tbl (CHR ''/'' # n2)"
proof -
  have "take (FileNameMaxLen cfg) (cstr n1) = take (FileNameMaxLen cfg) (cstr n2)"
    using assms(1,3,6) by (simp add: cstr_id)
  from FindIndex_prefix [OF this] have "FindIndex cfg tbl n1 = FindIndex cfg tbl n2" .
  with assms show ?thesis by (simp add: Find_top)
qed


text \<open>
  C9: two names that agree on their first \<open>FileNameMaxLen\<close> bytes resolve to the same
  entry for FindIndex, Find, Add and Remove. With \<open>FileNameMaxLen = 9\<close>, \<open>abcdefghi\<close>
  and \<open>abcdefghij\<close> are the same to \<^verbatim>\<open>FindIndex\<close> and \<^verbatim>\<open>Find\<close>; but \<^verbatim>\<open>Add\<close>
  stores the first in slot 0 and overruns \<^verbatim>\<open>File\<close> on the second, and \<^verbatim>\<open>Remove\<close>
  under \<open>/d\<close> clears the entry for the first and overruns \<^verbatim>\<open>File\<close> on the second.
\<close>

theorem long_names_told_apart:
  "FindIndex nachos dir_i ''abcdefghi'' = Some 0
   \<and> FindIndex nachos dir_i ''abcdefghij'' = Some 0
   \<and> Find nachos no_files dir_i ''/abcdefghi'' = Inr 17
   \<and> Find nachos no_files dir_i ''/abcdefghij'' = Inr 17
   \<and> Add nachos no_files (Directory_init nachos 10) ''/abcdefghi'' 17 (CHR ''F'') = Inr (True, dir_i, no_files)
   \<and> Add nachos no_files (Directory_init nachos 10) ''/abcdefghij'' 17 (CHR ''F'') = Inl BufferOverrun
   \<and> Remove nachos files_di dir_d ''/d/abcdefghi''
       = Inr (True, dir_d, WriteBack files_di 50 (dir_i[0 := (dir_i ! 0)\<lparr>inUse := False\<rparr>]))
   \<and> Remove nachos files_di dir_d ''/d/abcdefghij'' = Inl BufferOverrun"
proof -
  have i1: "FindIndex nachos dir_i ''abcdefghi'' = Some 0" by code_simp
  have i2: "FindIndex nachos dir_i ''abcdefghij'' = Some 0" by code_simp
  have f1: "Find nachos no_files dir_i ''/abcdefghi'' = Inr 17" by code_simp
  have f2: "Find nachos no_files dir_i ''/abcdefghij'' = Inr 17" by code_simp
  have a1: "Add nachos no_files (Directory_init nachos 10) ''/abcdefghi'' 17 (CHR ''F'') = Inr (True, dir_i, no_files)"
  proof -
    have f0: "Find nachos no_files (Directory_init nachos 10) ''/abcdefghi'' = Inr (- 1)" by code_simp
    have s: "split_path ''/abcdefghi'' = Inr ([], ''abcdefghi'')" by code_simp
    have fs: "free_slot 10 (Directory_init nachos 10) 0 = Inr (Some 0)" by code_simp
    have cp: "strncpy_File nachos (name (Directory_init nachos 10 ! 0)) ''abcdefghi''
                = Inr (name (entry ''abcdefghi'' 17 (CHR ''F'')))"
      by code_simp
    show ?thesis
      by (simp add: Add_def f0 s fs cp length_Directory_init dir_i_def entry_def)
  qed
  have r1: "Remove nachos files_di dir_d ''/d/abcdefghi''
       = Inr (True, dir_d, WriteBack files_di 50 (dir_i[0 := (dir_i ! 0)\<lparr>inUse := False\<rparr>]))"
  proof -
    have f: "Find nachos files_di dir_d ''/d/abcdefghi'' = Inr 17" by code_simp
    have s: "split_path ''/d/abcdefghi'' = Inr (''/d'', ''abcdefghi'')" by code_simp
    have p: "Find_buf nachos files_di dir_d ''/d'' True = Inr 50" by code_simp
    have o: "OpenFile nachos 50 = Inr 50" by code_simp
    have t: "FetchFrom nachos files_di 50 = dir_i" by code_simp
    have i: "FindIndex_File nachos dir_i ''abcdefghi'' = Inr (Some 0)" by code_simp
    show ?thesis by (simp add: Remove_def f s p o t i)
  qed
  have r2: "Remove nachos files_di dir_d ''/d/abcdefghij'' = Inl BufferOverrun"
  proof -
    have f: "Find nachos files_di dir_d ''/d/abcdefghij'' = Inr 17" by code_simp
    have s: "split_path ''/d/abcdefghij'' = Inl BufferOverrun" by code_simp
    show ?thesis by (simp add: Remove_def f s)
  qed
  from i1 i2 f1 f2 a1 Add_ten_byte_leaf [of nachos] r1 r2 show ?thesis by simp
qed

end
